theory Spec2Isabelle
  imports Main "HOL-Library.Char_ord" "HOL-Library.List_Lexorder" "HOL-Library.AList"
begin

section \<open>Python values and strings\<close>

text \<open>
  A Python \<open>str\<close> is modelled as a \<open>string\<close>; one \<open>char\<close> stands for one code point
  below 256. Strings are compared as Python compares them: lexicographically, by code
  point (the orders of \<open>Char_ord\<close> and \<open>List_Lexorder\<close>).

  The exceptions that the modelled code can meet. \<open>requests\<close> derives \<open>ReadTimeout\<close> and
  \<open>ConnectTimeout\<close> from \<open>Timeout\<close>, and \<open>Timeout\<close>, \<open>ConnectionError\<close>, \<open>HTTPError\<close>
  and its own \<open>JSONDecodeError\<close> from \<open>RequestException\<close>. Every constructor below
  derives from \<open>Exception\<close>, except \<open>KeyboardInterrupt\<close> and \<open>SystemExit\<close>, which
  derive from \<open>BaseException\<close> only: an \<open>except Exception\<close> clause lets them pass,
  a bare \<open>except\<close> catches them.
\<close>

datatype exc =
    ReadTimeout | ConnectTimeout | ConnectionError | HTTPError | RequestsJSONDecodeError
  | JSONDecodeError | AttributeError | TypeError | ValueError | IndexError
  | FileNotFoundError | PermissionError | KeyboardInterrupt | SystemExit

fun is_Exception :: "exc \<Rightarrow> bool" where
  "is_Exception KeyboardInterrupt = False"
| "is_Exception SystemExit = False"
| "is_Exception _ = True"

fun is_Timeout :: "exc \<Rightarrow> bool" where
  "is_Timeout ReadTimeout = True"
| "is_Timeout ConnectTimeout = True"
| "is_Timeout _ = False"

fun is_RequestException :: "exc \<Rightarrow> bool" where
  "is_RequestException ReadTimeout = True"
| "is_RequestException ConnectTimeout = True"
| "is_RequestException ConnectionError = True"
| "is_RequestException HTTPError = True"
| "is_RequestException RequestsJSONDecodeError = True"
| "is_RequestException _ = False"

fun is_JSONDecodeError :: "exc \<Rightarrow> bool" where
  "is_JSONDecodeError RequestsJSONDecodeError = True"
| "is_JSONDecodeError JSONDecodeError = True"
| "is_JSONDecodeError _ = False"

text \<open>
  The values a field of an upstream JSON record holds in the model: a string, an integer
  or \<open>null\<close>. (Floats, booleans and nested containers are left out.)
\<close>

datatype cell = CStr string | CInt int | CNone

fun truthy :: "cell \<Rightarrow> bool" where
  "truthy (CStr s) = (s \<noteq> [])"
| "truthy (CInt n) = (n \<noteq> 0)"
| "truthy CNone = False"

text \<open>\<open>str.isspace\<close> on the code points below 256.\<close>

definition isspace :: "char \<Rightarrow> bool" where
  "isspace c = (let n = (of_char c :: nat) in
     (9 \<le> n \<and> n \<le> 13) \<or> (28 \<le> n \<and> n \<le> 32) \<or> n = 133 \<or> n = 160)"

definition strip :: "string \<Rightarrow> string" where
  "strip s = rev (dropWhile isspace (rev (dropWhile isspace s)))"

text \<open>\<open>s.split(c)\<close> for a separator of one character: one piece more than separators.\<close>

fun split_on :: "char \<Rightarrow> string \<Rightarrow> string list" where
  "split_on c [] = [[]]"
| "split_on c (x # xs) =
     (if x = c then [] # split_on c xs
      else (case split_on c xs of [] \<Rightarrow> [[x]] | p # ps \<Rightarrow> (x # p) # ps))"

text \<open>\<open>sep.join(xs)\<close>.\<close>

fun join :: "string \<Rightarrow> string list \<Rightarrow> string" where
  "join sep [] = []"
| "join sep [x] = x"
| "join sep (x # y # ys) = x @ sep @ join sep (y # ys)"

text \<open>\<open>str.lower\<close> on the code points below 256, and the test \<open>sub in s\<close>.\<close>

definition lower_char :: "char \<Rightarrow> char" where
  "lower_char c = (let n = (of_char c :: nat) in
     if (65 \<le> n \<and> n \<le> 90) \<or> (192 \<le> n \<and> n \<le> 222 \<and> n \<noteq> 215)
     then char_of (n + 32) else c)"

definition lower :: "string \<Rightarrow> string" where
  "lower s = map lower_char s"

fun contains :: "string \<Rightarrow> string \<Rightarrow> bool" where
  "contains sub [] = (sub = [])"
| "contains sub (x # xs) = (take (length sub) (x # xs) = sub \<or> contains sub xs)"

section \<open>Field Extractor: \<open>getfloorPlan\<close>\<close>

text \<open>
  \<open>unit.split(',')[0]\<close>: the index raises \<open>IndexError\<close> on an empty list.
\<close>

definition first_segment :: "string \<Rightarrow> exc + string" where
  "first_segment unit =
     (case split_on CHR '','' unit of [] \<Rightarrow> Inl IndexError | p # _ \<Rightarrow> Inr p)"

text \<open>The \<open>for unit in unit_info.split('|')\<close> loop, \<open>unique_plans\<close> being the accumulator.\<close>

fun collect_plans :: "string set \<Rightarrow> string list \<Rightarrow> exc + string set" where
  "collect_plans unique_plans [] = Inr unique_plans"
| "collect_plans unique_plans (unit # units) =
     (if unit \<noteq> [] \<and> CHR '','' \<in> set unit then
        (case first_segment unit of
           Inl e \<Rightarrow> Inl e
         | Inr seg \<Rightarrow>
             (let plan_value = strip seg in
              if plan_value \<noteq> [] then collect_plans (insert plan_value unique_plans) units
              else collect_plans unique_plans units))
      else collect_plans unique_plans units)"

text \<open>
  The body of the \<open>try\<close>, for a \<open>str\<close> argument, and the whole function on any field
  value: a falsy value returns \<open>""\<close> at once; a truthy integer has no \<open>split\<close>, the
  \<open>AttributeError\<close> is caught by the bare \<open>except\<close>.
\<close>

definition getfloorPlan_body :: "cell \<Rightarrow> exc + string" where
  "getfloorPlan_body unit_info =
     (case unit_info of
        CStr s \<Rightarrow>
          (case collect_plans {} (split_on CHR ''|'' s) of
             Inl e \<Rightarrow> Inl e
           | Inr unique_plans \<Rightarrow> Inr (join '', '' (sorted_list_of_set unique_plans)))
      | _ \<Rightarrow> Inl AttributeError)"

definition getfloorPlan :: "cell \<Rightarrow> string" where
  "getfloorPlan unit_info =
     (if \<not> truthy unit_info then []
      else (case getfloorPlan_body unit_info of Inl e \<Rightarrow> [] | Inr r \<Rightarrow> r))"

section \<open>The scraper object and its surroundings\<close>

text \<open>
  \<open>str(n)\<close> for an integer, as the f-strings of the source format it.
\<close>

fun str_nat :: "nat \<Rightarrow> string" where
  "str_nat n = (if n < 10 then [''0123456789'' ! n]
                else str_nat (n div 10) @ [''0123456789'' ! (n mod 10)])"

declare str_nat.simps [simp del]

definition str_int :: "int \<Rightarrow> string" where
  "str_int i = (if i < 0 then CHR ''-'' # str_nat (nat (- i)) else str_nat (nat i))"

fun py_str :: "cell \<Rightarrow> string" where
  "py_str (CStr s) = s"
| "py_str (CInt n) = str_int n"
| "py_str CNone = ''None''"

text \<open>
  What a parsed detail page answers to the queries of \<open>getRera\<close>: for a CSS selector,
  \<open>get_text(strip=True)\<close> of the first matching element (\<open>None\<close> when \<open>select_one\<close>
  finds nothing), and, for the fallback, \<open>parent.get_text(strip=True)\<close> of every string
  node whose lowered text contains \<open>rera\<close>, in document order.
\<close>

record page =
  select_one :: "string \<Rightarrow> string option"
  rera_parents :: "string list"

text \<open>
  A raw element of the \<open>projectsCards\<close> array: a JSON object, or something without a
  \<open>get\<close> method. The decoded body of a listing response: an object without the key, an
  object whose key holds a sequence (a falsy value counts as the empty one), or a value
  on which \<open>'projectsCards' in data\<close>, the subscript or \<open>len\<close> raises.
\<close>

datatype raw_card = Card "string \<rightharpoonup> cell" | NotObject

datatype listing = NoCardsKey | Cards "raw_card list" | Unusable exc

record response =
  http_error :: bool
  json_data :: "exc + listing"
  soup :: "exc + page"

datatype mode = ModeW | ModeA

datatype event =
    HttpGet string | Sleep nat | Rename string string | OpenFile string mode

text \<open>
  The surroundings of a run: the answer of the network to a GET, given how many GETs the
  run has issued before it; \<open>int(time.time())\<close> at the start of the run; and the pages
  at whose start the operator interrupts.
\<close>

record env =
  http_get :: "nat \<Rightarrow> string \<Rightarrow> exc + response"
  now :: nat
  interrupt :: "int \<Rightarrow> bool"

text \<open>
  The scraper object together with the file system it writes to. A tabular file is the
  list of its rows; \<open>docs\<close> holds the JSON documents; a directory exists when its name,
  as written, is in \<open>dirs\<close> (the working directory, named by the empty string, always
  does). \<open>trace\<close> lists the calls issued to the outside, oldest first. Console output is
  not modelled.
\<close>

type_synonym project_data = "(string \<times> cell) list"

record state =
  csv_filename :: string
  json_filename :: string
  scraped_count :: nat
  failed_count :: nat
  dirs :: "string set"
  files :: "string \<rightharpoonup> cell list list"
  docs :: "string \<rightharpoonup> project_data list"
  trace :: "event list"

fun is_get :: "event \<Rightarrow> bool" where
  "is_get (HttpGet u) = True"
| "is_get _ = False"

text \<open>What the network answers to the next GET of the run.\<close>

definition next_answer :: "env \<Rightarrow> state \<Rightarrow> string \<Rightarrow> exc + response" where
  "next_answer ev st url = http_get ev (length (filter is_get (trace st))) url"

definition session_get :: "env \<Rightarrow> state \<Rightarrow> string \<Rightarrow> (exc + response) \<times> state" where
  "session_get ev st url = (next_answer ev st url, st\<lparr>trace := trace st @ [HttpGet url]\<rparr>)"

definition sleep :: "nat \<Rightarrow> state \<Rightarrow> state" where
  "sleep n st = st\<lparr>trace := trace st @ [Sleep n]\<rparr>"

section \<open>Detail Fetcher: \<open>getRera\<close>\<close>

definition rera_selectors :: "string list" where
  \<open>rera_selectors =
     [''span.pdp__header--reraid__id'', ''span[class*="rera"]'', ''div[class*="rera"]'',
      ''span.rera-id'', ''.rera-number'']\<close>

text \<open>The loop over the selectors; \<open>rera_text\<close> is the variable it assigns.\<close>

fun probe :: "page \<Rightarrow> string \<Rightarrow> string list \<Rightarrow> string" where
  "probe pg rera_text [] = rera_text"
| "probe pg rera_text (selector # selectors) =
     (case select_one pg selector of
        None \<Rightarrow> probe pg rera_text selectors
      | Some t \<Rightarrow> if t \<noteq> [] then t else probe pg t selectors)"

text \<open>The fallback loop over the parents of the strings that mention \<open>rera\<close>.\<close>

fun scan_parents :: "string \<Rightarrow> string list \<Rightarrow> string" where
  "scan_parents rera_text [] = rera_text"
| "scan_parents rera_text (parent_text # rest) =
     (if contains ''rera'' (lower parent_text) then parent_text
      else scan_parents rera_text rest)"

definition extract_rera :: "page \<Rightarrow> string" where
  "extract_rera pg =
     (let rera_text = probe pg [] rera_selectors;
          rera_text = (if rera_text = [] then scan_parents rera_text (rera_parents pg)
                       else rera_text)
      in if rera_text \<noteq> [] then rera_text else ''Not Available'')"

text \<open>The body of the \<open>try\<close>: the request, \<open>raise_for_status\<close>, parsing and extraction.\<close>

definition getRera_body :: "env \<Rightarrow> state \<Rightarrow> string \<Rightarrow> (exc + string) \<times> state" where
  "getRera_body ev st full_url =
     (case session_get ev st full_url of
        (Inl e, st') \<Rightarrow> (Inl e, st')
      | (Inr resp, st') \<Rightarrow>
          if http_error resp then (Inl HTTPError, st')
          else (case soup resp of
                  Inl e \<Rightarrow> (Inl e, st')
                | Inr pg \<Rightarrow> (Inr (extract_rera pg), st')))"

text \<open>
  The \<open>except\<close> clauses, in the order of the source. The last one is
  \<open>except Exception\<close>: an exception outside \<open>Exception\<close> is not caught and leaves
  \<open>getRera\<close>.
\<close>

definition rera_handler :: "exc \<Rightarrow> exc + string" where
  "rera_handler e =
     (if is_Timeout e then Inr ''Timeout''
      else if is_RequestException e then Inr ''Network Error''
      else if is_Exception e then Inr ''Error''
      else Inl e)"

definition full_url :: "cell \<Rightarrow> string" where
  "full_url pdp_url = ''https://www.magicbricks.com/'' @ py_str pdp_url"

text \<open>\<open>Inr\<close> is the string returned, \<open>Inl\<close> the exception that reaches the caller.\<close>

definition getRera :: "env \<Rightarrow> state \<Rightarrow> cell \<Rightarrow> (exc + string) \<times> state" where
  "getRera ev st pdp_url =
     (if \<not> truthy pdp_url then (Inr [], st)
      else
        (case getRera_body ev st (full_url pdp_url) of
           (Inr rera, st') \<Rightarrow> (Inr rera, st')
         | (Inl e, st') \<Rightarrow> (rera_handler e, st')))"

section \<open>Persistence Sink: \<open>write_to_csv\<close>\<close>

definition fieldnames :: "string list" where
  "fieldnames = [''Name'', ''Developer Name'', ''Price Range'', ''No of units'',
                 ''Brochure'', ''Total Acres'', ''Floor Plan'', ''RERA Number'']"

text \<open>
  \<open>os.path.dirname\<close> and \<open>os.path.join\<close> of two components, as \<open>posixpath\<close> defines
  them.
\<close>

definition dirname :: "string \<Rightarrow> string" where
  "dirname p =
     (let head = rev (dropWhile (\<lambda>c. c \<noteq> CHR ''/'') (rev p)) in
      if head \<noteq> [] \<and> filter (\<lambda>c. c \<noteq> CHR ''/'') head \<noteq> []
      then rev (dropWhile (\<lambda>c. c = CHR ''/'') (rev head)) else head)"

definition path_join :: "string \<Rightarrow> string \<Rightarrow> string" where
  "path_join a b =
     (if take 1 b = ''/'' then b
      else if a = [] \<or> last a = CHR ''/'' then a @ b
      else a @ ''/'' @ b)"

definition dir_exists :: "state \<Rightarrow> string \<Rightarrow> bool" where
  "dir_exists st d = (d = [] \<or> d \<in> dirs st)"

text \<open>
  \<open>open(name, mode)\<close> of a tabular file: it raises when the directory of the name is
  missing; otherwise mode \<open>w\<close> creates or truncates the file and mode \<open>a\<close> creates it
  when it is absent. The failure of a later write is not modelled.
\<close>

definition open_file :: "state \<Rightarrow> string \<Rightarrow> mode \<Rightarrow> exc option \<times> state" where
  "open_file st name m =
     (let st' = st\<lparr>trace := trace st @ [OpenFile name m]\<rparr> in
      if \<not> dir_exists st (dirname name) then (Some FileNotFoundError, st')
      else (None, st'\<lparr>files := (files st)(name \<mapsto>
              (case m of ModeW \<Rightarrow> []
               | ModeA \<Rightarrow> (case files st name of None \<Rightarrow> [] | Some rows \<Rightarrow> rows)))\<rparr>))"

text \<open>\<open>csvfile.tell()\<close> right after the file is opened: zero exactly for a file without content.\<close>

definition tell :: "state \<Rightarrow> string \<Rightarrow> nat" where
  "tell st name = (case files st name of None \<Rightarrow> 0 | Some rows \<Rightarrow> length rows)"

definition append_row :: "state \<Rightarrow> string \<Rightarrow> cell list \<Rightarrow> state" where
  "append_row st name row =
     st\<lparr>files := (files st)(name \<mapsto>
          (case files st name of None \<Rightarrow> [] | Some rows \<Rightarrow> rows) @ [row])\<rparr>"

text \<open>
  \<open>DictWriter.writerow\<close>: a key outside \<open>fieldnames\<close> raises \<open>ValueError\<close>; a field
  missing from the dictionary is written as the empty string.
\<close>

definition dict_row :: "project_data \<Rightarrow> exc + cell list" where
  "dict_row project =
     (if filter (\<lambda>k. k \<notin> set fieldnames) (map fst project) \<noteq> [] then Inl ValueError
      else Inr (map (\<lambda>k. case map_of project k of None \<Rightarrow> CStr [] | Some v \<Rightarrow> v)
                  fieldnames))"

fun write_rows :: "state \<Rightarrow> string \<Rightarrow> project_data list \<Rightarrow> exc option \<times> state" where
  "write_rows st name [] = (None, st)"
| "write_rows st name (project # projects) =
     (case dict_row project of
        Inl e \<Rightarrow> (Some e, st)
      | Inr row \<Rightarrow> write_rows (append_row st name row) name projects)"

definition write_to_csv :: "state \<Rightarrow> project_data list \<Rightarrow> mode \<Rightarrow> bool \<times> state" where
  "write_to_csv st projects m =
     (if projects = [] then (False, st)
      else
        (case open_file st (csv_filename st) m of
           (Some e, st1) \<Rightarrow> (False, st1)
         | (None, st1) \<Rightarrow>
             (let st2 = (if m = ModeW \<or> tell st1 (csv_filename st) = 0
                         then append_row st1 (csv_filename st) (map CStr fieldnames)
                         else st1)
              in case write_rows st2 (csv_filename st) projects of
                   (Some e, st3) \<Rightarrow> (False, st3)
                 | (None, st3) \<Rightarrow> (True, st3))))"

section \<open>Page Harvester: \<open>scrape_single_page\<close>\<close>

record stats =
  success :: nat
  failed :: nat

definition zero_stats :: stats where
  "zero_stats = \<lparr>success = 0, failed = 0\<rparr>"

text \<open>\<open>project.get(key, '')\<close>.\<close>

definition dict_get :: "(string \<rightharpoonup> cell) \<Rightarrow> string \<Rightarrow> cell" where
  "dict_get project key = (case project key of None \<Rightarrow> CStr [] | Some v \<Rightarrow> v)"

definition build_record :: "(string \<rightharpoonup> cell) \<Rightarrow> project_data" where
  "build_record project =
     [(''Name'', dict_get project ''psmName''),
      (''Developer Name'', dict_get project ''lmtDName''),
      (''Price Range'', dict_get project ''showPriceRange''),
      (''No of units'', dict_get project ''totalUnits''),
      (''Brochure'', dict_get project ''sblink''),
      (''Total Acres'', dict_get project ''projArea''),
      (''Floor Plan'', CStr (getfloorPlan (dict_get project ''unitInfo''))),
      (''RERA Number'', CStr [])]"

definition rera_failures :: "string list" where
  "rera_failures = [''Not Available'', ''Timeout'', ''Network Error'', ''Error'']"

text \<open>
  One turn of the loop over the cards, with the inner \<open>try\<close> and its
  \<open>except Exception\<close>: the first component is the exception that leaves the turn, if
  any. An element without \<open>get\<close> raises \<open>AttributeError\<close>, which the handler counts in
  \<open>failed_count\<close>; so it does any other exception within \<open>Exception\<close>; an exception
  outside \<open>Exception\<close> that \<open>getRera\<close> lets through leaves the turn.
\<close>

fun process_project ::
  "env \<Rightarrow> project_data list \<times> stats \<times> state \<Rightarrow> raw_card
     \<Rightarrow> exc option \<times> project_data list \<times> stats \<times> state"
where
  "process_project ev (projects, rera_stats, st) NotObject =
     (None, projects, rera_stats, st\<lparr>failed_count := failed_count st + 1\<rparr>)"
| "process_project ev (projects, rera_stats, st) (Card project) =
     (let project_data = build_record project;
          pdp_url = dict_get project ''pdpUrl''
      in if truthy pdp_url then
           (case getRera ev st pdp_url of
              (Inl e, st1) \<Rightarrow>
                if is_Exception e
                then (None, projects, rera_stats, st1\<lparr>failed_count := failed_count st1 + 1\<rparr>)
                else (Some e, projects, rera_stats, st1)
            | (Inr rera_number, st1) \<Rightarrow>
                (let project_data = AList.update ''RERA Number'' (CStr rera_number) project_data;
                     rera_stats =
                       (if rera_number \<noteq> [] \<and> rera_number \<notin> set rera_failures
                        then rera_stats\<lparr>success := success rera_stats + 1\<rparr>
                        else rera_stats\<lparr>failed := failed rera_stats + 1\<rparr>);
                     st2 = sleep 1 st1
                 in (None, projects @ [project_data], rera_stats,
                     st2\<lparr>scraped_count := scraped_count st2 + 1\<rparr>)))
         else
           (let project_data = AList.update ''RERA Number'' (CStr ''No PDP URL'') project_data;
                rera_stats = rera_stats\<lparr>failed := failed rera_stats + 1\<rparr>
            in (None, projects @ [project_data], rera_stats,
                st\<lparr>scraped_count := scraped_count st + 1\<rparr>)))"

text \<open>The \<open>for\<close> loop over the cards: it ends early when an exception leaves a turn.\<close>

fun process_cards ::
  "env \<Rightarrow> project_data list \<times> stats \<times> state \<Rightarrow> raw_card list
     \<Rightarrow> exc option \<times> project_data list \<times> stats \<times> state"
where
  "process_cards ev acc [] = (None, acc)"
| "process_cards ev acc (c # cs) =
     (case process_project ev acc c of
        (Some e, acc') \<Rightarrow> (Some e, acc')
      | (None, acc') \<Rightarrow> process_cards ev acc' cs)"

definition listing_url :: "int \<Rightarrow> string" where
  "listing_url page_no =
     ''https://www.magicbricks.com/mbproject/newProjectCards?&pageNo='' @ str_int page_no
       @ ''&city=3327''"

text \<open>The body of the outer \<open>try\<close>.\<close>

definition scrape_single_page_body ::
  "env \<Rightarrow> state \<Rightarrow> int \<Rightarrow> (exc + project_data list \<times> stats) \<times> state" where
  "scrape_single_page_body ev st page_no =
     (case session_get ev st (listing_url page_no) of
        (Inl e, st1) \<Rightarrow> (Inl e, st1)
      | (Inr resp, st1) \<Rightarrow>
          if http_error resp then (Inl HTTPError, st1)
          else
            (case json_data resp of
               Inl e \<Rightarrow> (Inl e, st1)
             | Inr (Unusable e) \<Rightarrow> (Inl e, st1)
             | Inr NoCardsKey \<Rightarrow> (Inr ([], zero_stats), st1)
             | Inr (Cards cards) \<Rightarrow>
                 if cards \<noteq> [] then
                   (case process_cards ev ([], zero_stats, st1) cards of
                      (Some e, projects, rera_stats, st2) \<Rightarrow> (Inl e, st2)
                    | (None, projects, rera_stats, st2) \<Rightarrow> (Inr (projects, rera_stats), st2))
                 else (Inr ([], zero_stats), st1)))"

text \<open>
  The three \<open>except\<close> clauses of the outer \<open>try\<close>, the last one \<open>except Exception\<close>:
  \<open>Inr\<close> is the pair returned, \<open>Inl\<close> the exception that reaches the caller.
\<close>

definition scrape_single_page ::
  "env \<Rightarrow> state \<Rightarrow> int \<Rightarrow> (exc + project_data list \<times> stats) \<times> state" where
  "scrape_single_page ev st page_no =
     (case scrape_single_page_body ev st page_no of
        (Inr r, st') \<Rightarrow> (Inr r, st')
      | (Inl e, st') \<Rightarrow>
          if is_RequestException e then (Inr ([], \<lparr>success = 0, failed = 0\<rparr>), st')
          else if is_JSONDecodeError e then (Inr ([], \<lparr>success = 0, failed = 0\<rparr>), st')
          else if is_Exception e then (Inr ([], \<lparr>success = 0, failed = 0\<rparr>), st')
          else (Inl e, st'))"

section \<open>Run Controller: \<open>scrape_multiple_pages\<close>\<close>

text \<open>
  \<open>os.rename(src, dst)\<close>: it raises \<open>FileNotFoundError\<close> when the source is absent or
  when the directory of the destination does not exist; otherwise the file moves.
\<close>

definition os_rename :: "state \<Rightarrow> string \<Rightarrow> string \<Rightarrow> exc option \<times> state" where
  "os_rename st src dst =
     (let st' = st\<lparr>trace := trace st @ [Rename src dst]\<rparr> in
      case files st src of
        None \<Rightarrow> (Some FileNotFoundError, st')
      | Some rows \<Rightarrow>
          if \<not> dir_exists st (dirname dst) then (Some FileNotFoundError, st')
          else (None, st'\<lparr>files := ((files st)(src := None))(dst \<mapsto> rows)\<rparr>))"

text \<open>\<open>os.path.exists\<close>, for a name that is a regular file or nothing.\<close>

definition path_exists :: "state \<Rightarrow> string \<Rightarrow> bool" where
  "path_exists st name = (files st name \<noteq> None)"

text \<open>
  The constructor: \<open>os.makedirs(output_dir, exist_ok=True)\<close> raises on the empty name
  and otherwise makes the directory exist; the two file names follow.
\<close>

definition init :: "state \<Rightarrow> string \<Rightarrow> exc + state" where
  "init world output_dir =
     (if output_dir = [] then Inl FileNotFoundError
      else Inr (world\<lparr>csv_filename := path_join output_dir ''magicbricks_projects.csv'',
                      json_filename := path_join output_dir ''magicbricks_projects.json'',
                      scraped_count := 0,
                      failed_count := 0,
                      dirs := insert output_dir (dirs world)\<rparr>))"

definition add_stats :: "stats \<Rightarrow> stats \<Rightarrow> stats" where
  "add_stats total_rera_stats page_rera_stats =
     \<lparr>success = success total_rera_stats + success page_rera_stats,
      failed = failed total_rera_stats + failed page_rera_stats\<rparr>"

text \<open>
  The \<open>for page_no in range(start_page, end_page + 1)\<close> loop over the pages still to
  visit, with \<open>all_projects\<close>, \<open>current_batch\<close>, \<open>total_rera_stats\<close> and the state as
  accumulators; the first component of the result is the exception that leaves the
  loop, if any. A \<open>KeyboardInterrupt\<close> in the body leaves the loop by \<open>break\<close>; any
  other exception within \<open>Exception\<close> is counted in \<open>failed_count\<close> and the loop goes
  on; an exception outside \<open>Exception\<close> leaves the function.
\<close>

fun pages_loop ::
  "env \<Rightarrow> int \<Rightarrow> int \<Rightarrow> int \<Rightarrow> int list
     \<Rightarrow> project_data list \<times> project_data list \<times> stats \<times> state
     \<Rightarrow> exc option \<times> project_data list \<times> project_data list \<times> stats \<times> state"
where
  "pages_loop ev start_page end_page batch_size [] acc = (None, acc)"
| "pages_loop ev start_page end_page batch_size (page_no # rest)
      (all_projects, current_batch, total_rera_stats, st) =
     (if interrupt ev page_no then (None, all_projects, current_batch, total_rera_stats, st)
      else
        (case scrape_single_page ev st page_no of
           (Inl e, st1) \<Rightarrow>
             if e = KeyboardInterrupt
             then (None, all_projects, current_batch, total_rera_stats, st1)
             else if is_Exception e
             then pages_loop ev start_page end_page batch_size rest
                    (all_projects, current_batch, total_rera_stats,
                     st1\<lparr>failed_count := failed_count st1 + 1\<rparr>)
             else (Some e, all_projects, current_batch, total_rera_stats, st1)
         | (Inr (page_projects, page_rera_stats), st1) \<Rightarrow>
             (let total_rera_stats = add_stats total_rera_stats page_rera_stats;
                  (all_projects, current_batch, st2) =
                    (if page_projects \<noteq> [] then
                       (let all_projects = all_projects @ page_projects;
                            current_batch = current_batch @ page_projects
                        in if int (length current_batch) \<ge> batch_size then
                             (let m = (if page_no = start_page
                                          \<and> int (length all_projects) \<le> batch_size
                                       then ModeW else ModeA)
                              in (all_projects, [], snd (write_to_csv st1 current_batch m)))
                           else (all_projects, current_batch, st1))
                     else (all_projects, current_batch, st1));
                  st3 = (if page_no < end_page then sleep 2 st2 else st2)
              in pages_loop ev start_page end_page batch_size rest
                   (all_projects, current_batch, total_rera_stats, st3))))"

text \<open>The flush of the remaining batch after the loop.\<close>

definition final_flush :: "project_data list \<Rightarrow> project_data list \<Rightarrow> state \<Rightarrow> state" where
  "final_flush all_projects current_batch st =
     (if current_batch \<noteq> [] then
        snd (write_to_csv st current_batch (if all_projects = [] then ModeW else ModeA))
      else st)"

text \<open>The JSON snapshot; a failure to open the file is caught and reported.\<close>

definition save_json :: "project_data list \<Rightarrow> state \<Rightarrow> state" where
  "save_json all_projects st =
     (let st' = st\<lparr>trace := trace st @ [OpenFile (json_filename st) ModeW]\<rparr> in
      if \<not> dir_exists st (dirname (json_filename st)) then st'
      else st'\<lparr>docs := (docs st)(json_filename st \<mapsto> all_projects)\<rparr>)"

text \<open>
  The backup of a prior file stands outside every \<open>try\<close>: an exception of \<open>os.rename\<close>
  leaves the function, as does an exception that leaves the loop; the final flush and
  the snapshot are then not reached.
\<close>

definition backup_name :: "env \<Rightarrow> state \<Rightarrow> string" where
  "backup_name ev st = ''backup_'' @ str_nat (now ev) @ ''_'' @ csv_filename st"

definition scrape_multiple_pages ::
  "env \<Rightarrow> state \<Rightarrow> int \<Rightarrow> int \<Rightarrow> int \<Rightarrow> (exc + project_data list \<times> stats) \<times> state" where
  "scrape_multiple_pages ev st start_page end_page batch_size =
     (case (if start_page = 1 \<and> path_exists st (csv_filename st)
            then os_rename st (csv_filename st) (backup_name ev st)
            else (None, st)) of
        (Some e, st0) \<Rightarrow> (Inl e, st0)
      | (None, st0) \<Rightarrow>
          (case pages_loop ev start_page end_page batch_size [start_page..end_page]
                  ([], [], zero_stats, st0) of
             (Some e, all_projects, current_batch, total_rera_stats, st1) \<Rightarrow> (Inl e, st1)
           | (None, all_projects, current_batch, total_rera_stats, st1) \<Rightarrow>
               (Inr (all_projects, total_rera_stats),
                save_json all_projects (final_flush all_projects current_batch st1))))"

text \<open>The modes in which a run opened the tabular file, in order.\<close>

fun csv_opens :: "string \<Rightarrow> event list \<Rightarrow> mode list" where
  "csv_opens name [] = []"
| "csv_opens name (OpenFile f m # es) =
     (if f = name then m # csv_opens name es else csv_opens name es)"
| "csv_opens name (e # es) = csv_opens name es"

section \<open>The specification's wording, and sample inputs\<close>

text \<open>
  The floor-plan summary as the specification words it: the trimmed first comma-segment
  of every pipe-delimited entry that contains a comma, without duplicates, sorted, joined
  by a comma and a space.
\<close>

definition spec_plan_label :: "string \<Rightarrow> string" where
  "spec_plan_label unit = strip (takeWhile (\<lambda>c. c \<noteq> CHR '','') unit)"

definition spec_entries :: "string \<Rightarrow> string list" where
  "spec_entries s = filter (\<lambda>u. CHR '','' \<in> set u) (split_on CHR ''|'' s)"

definition spec_normalizeFloorPlans :: "string \<Rightarrow> string" where
  "spec_normalizeFloorPlans s =
     join '', '' (sorted_list_of_set (set (map spec_plan_label (spec_entries s))))"

text \<open>The records of a page result; none when the harvest ended in an exception.\<close>

definition page_records :: "exc + project_data list \<times> stats \<Rightarrow> project_data list" where
  "page_records r = (case r of Inl e \<Rightarrow> [] | Inr (projects, rera_stats) \<Rightarrow> projects)"

text \<open>The rows a tabular file holds once \<open>write_to_csv\<close> has opened it.\<close>

definition prior_rows :: "state \<Rightarrow> mode \<Rightarrow> cell list list" where
  "prior_rows st m =
     (case m of ModeW \<Rightarrow> []
      | ModeA \<Rightarrow> (case files st (csv_filename st) of None \<Rightarrow> [] | Some rows \<Rightarrow> rows))"

text \<open>
  A scraper built with the default output directory on an empty file system, the same
  scraper when an earlier run has left its tabular file behind, and a network that gives
  one fixed answer.
\<close>

definition sample_world :: state where
  "sample_world =
     \<lparr>csv_filename = [], json_filename = [], scraped_count = 0, failed_count = 0,
      dirs = {}, files = Map.empty, docs = Map.empty, trace = []\<rparr>"

definition sample_scraper :: state where
  "sample_scraper =
     sample_world\<lparr>csv_filename := ''output/magicbricks_projects.csv'',
                  json_filename := ''output/magicbricks_projects.json'',
                  dirs := {''output''}\<rparr>"

definition stale_scraper :: state where
  "stale_scraper =
     sample_scraper\<lparr>files := [''output/magicbricks_projects.csv'' \<mapsto> [[CStr ''stale'']]]\<rparr>"

definition sample_env :: "(exc + response) \<Rightarrow> env" where
  "sample_env answer =
     \<lparr>http_get = (\<lambda>n url. answer), now = 1700000000, interrupt = (\<lambda>p. False)\<rparr>"

definition json_response :: "listing \<Rightarrow> response" where
  "json_response data = \<lparr>http_error = False, json_data = Inr data, soup = Inl TypeError\<rparr>"

definition html_response :: "page \<Rightarrow> response" where
  "html_response pg = \<lparr>http_error = False, json_data = Inl JSONDecodeError, soup = Inr pg\<rparr>"

definition blank_page :: page where
  "blank_page = \<lparr>select_one = (\<lambda>sel. None), rera_parents = []\<rparr>"

definition rera_page :: page where
  "rera_page =
     \<lparr>select_one = (\<lambda>sel. if sel = ''span.rera-id'' then Some ''P52100012345'' else None),
      rera_parents = []\<rparr>"

definition sample_card :: "string \<rightharpoonup> cell" where
  "sample_card =
     [''psmName'' \<mapsto> CStr ''Green Acres'', ''pdpUrl'' \<mapsto> CStr ''pdp/green-acres'']"

definition bare_card :: "string \<rightharpoonup> cell" where
  "bare_card = [''psmName'' \<mapsto> CStr ''Blue Hills'', ''totalUnits'' \<mapsto> CInt 120]"

definition bare_record :: project_data where
  "bare_record = AList.update ''RERA Number'' (CStr ''No PDP URL'') (build_record bare_card)"

definition three_cards :: "raw_card list" where
  "three_cards = [Card bare_card, Card bare_card, Card bare_card]"

definition small_run_env :: env where
  "small_run_env = sample_env (Inr (json_response (Cards three_cards)))"

section \<open>Properties of the Field Extractor\<close>

lemma split_on_nonempty: "split_on c s \<noteq> []"
  by (induction s) (auto split: list.splits)

lemma split_on_pieces: "p \<in> set (split_on c s) \<Longrightarrow> c \<notin> set p"
  by (induction s arbitrary: p) (auto split: list.splits if_splits)

lemma join_Cons: "ps \<noteq> [] \<Longrightarrow> join sep (p # ps) = p @ sep @ join sep ps"
  by (cases ps) auto

text \<open>Joining the pieces with the separator gives the string back.\<close>

lemma split_on_join: "join [c] (split_on c s) = s"
proof (induction s)
  case Nil
  show ?case by simp
next
  case (Cons x xs)
  obtain p ps where eq: "split_on c xs = p # ps"
    using split_on_nonempty[of c xs] by (cases "split_on c xs") auto
  show ?case
  proof (cases "x = c")
    case True
    then show ?thesis using Cons eq by (simp add: join_Cons)
  next
    case False
    then show ?thesis using Cons eq by (cases ps) auto
  qed
qed

lemma hd_split_on: "hd (split_on c s) = takeWhile (\<lambda>x. x \<noteq> c) s"
  by (induction s) (auto split: list.splits simp: split_on_nonempty)

text \<open>The index \<open>[0]\<close> never raises: a split has at least one piece.\<close>

lemma first_segment_eq: "first_segment unit = Inr (takeWhile (\<lambda>x. x \<noteq> CHR '','') unit)"
  using hd_split_on[of "CHR '',''" unit] split_on_nonempty[of "CHR '',''" unit]
  by (auto simp: first_segment_def split: list.splits)

lemma collect_plans_eq:
  "collect_plans acc units =
     Inr (acc \<union> set (filter (\<lambda>l. l \<noteq> [])
                  (map spec_plan_label (filter (\<lambda>u. CHR '','' \<in> set u) units))))"
  by (induction units arbitrary: acc) (auto simp: first_segment_eq spec_plan_label_def Let_def)

lemma getfloorPlan_body_str:
  "getfloorPlan_body (CStr s) =
     Inr (join '', '' (sorted_list_of_set
            (set (filter (\<lambda>l. l \<noteq> []) (map spec_plan_label (spec_entries s))))))"
  by (simp add: getfloorPlan_body_def collect_plans_eq spec_entries_def)

lemma getfloorPlan_str:
  "getfloorPlan (CStr s) =
     join '', '' (sorted_list_of_set
        (set (filter (\<lambda>l. l \<noteq> []) (map spec_plan_label (spec_entries s)))))"
  by (cases "s = []") (simp_all add: getfloorPlan_def getfloorPlan_body_str spec_entries_def)

lemma getfloorPlan_sort:
  "getfloorPlan (CStr s) =
     join '', '' (sort (remdups (filter (\<lambda>l. l \<noteq> []) (map spec_plan_label (spec_entries s)))))"
  unfolding getfloorPlan_str sorted_list_of_set_sort_remdups ..

lemma getfloorPlan_example:
  "getfloorPlan (CStr ''2BHK,900sqft|3BHK,1200sqft|2BHK,950sqft'') = ''2BHK, 3BHK''"
  by (simp add: getfloorPlan_sort spec_entries_def spec_plan_label_def strip_def isspace_def)

lemma getfloorPlan_empty_label: "getfloorPlan (CStr '',x|A,y'') = ''A''"
  by (simp add: getfloorPlan_sort spec_entries_def spec_plan_label_def strip_def isspace_def)

lemma spec_normalizeFloorPlans_empty_label: "spec_normalizeFloorPlans '',x|A,y'' = '', A''"
  by (simp add: spec_normalizeFloorPlans_def sorted_list_of_set_sort_remdups spec_entries_def
        spec_plan_label_def strip_def isspace_def)

text \<open>
  C3, as the claim states it, fails: the entry \<open>,x\<close> contains a comma and its trimmed
  first comma-segment is the empty string, which the claimed result keeps as a label and
  \<open>getfloorPlan\<close> drops (\<open>if plan_value:\<close>).
\<close>

theorem getfloorPlan_drops_empty_label:
  "getfloorPlan (CStr '',x|A,y'') = ''A''
   \<and> spec_normalizeFloorPlans '',x|A,y'' = '', A''
   \<and> getfloorPlan (CStr '',x|A,y'') \<noteq> spec_normalizeFloorPlans '',x|A,y''"
  by (simp add: getfloorPlan_empty_label spec_normalizeFloorPlans_empty_label)

text \<open>
  C3, amended: for every pipe-delimited unit-info string, \<open>getfloorPlan\<close> returns the
  labels joined by a comma and a space, where the labels are the \<^emph>\<open>non-empty\<close>
  whitespace-trimmed first comma-segments of the entries that contain a comma, sorted
  lexicographically and without duplicates; entries without a comma are ignored; the
  empty input yields the empty string; the input of the example yields \<open>2BHK, 3BHK\<close>;
  and the body of the \<open>try\<close> never raises.
\<close>

theorem getfloorPlan_labels:
  "(\<exists>labels. getfloorPlan (CStr s) = join '', '' labels
       \<and> sorted labels \<and> distinct labels
       \<and> set labels = {l. l \<noteq> [] \<and> l \<in> spec_plan_label ` set (spec_entries s)})
   \<and> (\<exists>r. getfloorPlan_body (CStr s) = Inr r)
   \<and> getfloorPlan (CStr []) = []
   \<and> getfloorPlan (CStr ''2BHK,900sqft|3BHK,1200sqft|2BHK,950sqft'') = ''2BHK, 3BHK''"
proof -
  let ?S = "set (filter (\<lambda>l. l \<noteq> []) (map spec_plan_label (spec_entries s)))"
  have "getfloorPlan (CStr s) = join '', '' (sorted_list_of_set ?S)"
    by (rule getfloorPlan_str)
  moreover have "sorted (sorted_list_of_set ?S)" "distinct (sorted_list_of_set ?S)"
    by simp_all
  moreover have "set (sorted_list_of_set ?S)
                   = {l. l \<noteq> [] \<and> l \<in> spec_plan_label ` set (spec_entries s)}"
    by auto
  ultimately have "\<exists>labels. getfloorPlan (CStr s) = join '', '' labels
       \<and> sorted labels \<and> distinct labels
       \<and> set labels = {l. l \<noteq> [] \<and> l \<in> spec_plan_label ` set (spec_entries s)}"
    by blast
  moreover have "\<exists>r. getfloorPlan_body (CStr s) = Inr r"
    by (simp add: getfloorPlan_body_str)
  moreover have "getfloorPlan (CStr []) = []"
    by (simp add: getfloorPlan_def)
  ultimately show ?thesis
    using getfloorPlan_example by blast
qed

theorem getfloorPlan_labels_witness:
  "\<exists>labels. getfloorPlan (CStr '' b , x|a,y||zz|a ,'') = join '', '' labels
       \<and> sorted labels \<and> distinct labels
       \<and> set labels = {l. l \<noteq> [] \<and> l \<in> spec_plan_label ` set (spec_entries '' b , x|a,y||zz|a ,'')}"
  using getfloorPlan_labels[of "'' b , x|a,y||zz|a ,''"] by blast

section \<open>Properties of the Detail Fetcher\<close>

text \<open>
  C6: for the empty detail path \<open>getRera\<close> returns the empty string at once; the state,
  and with it the trace of the calls issued to the network, is unchanged.
\<close>

theorem getRera_empty_path:
  "fst (getRera ev st (CStr [])) = Inr [] \<and> snd (getRera ev st (CStr [])) = st
   \<and> filter is_get (trace (snd (getRera ev st (CStr [])))) = filter is_get (trace st)"
  by (simp add: getRera_def)

theorem getRera_empty_path_witness:
  "fst (getRera (sample_env (Inl ConnectionError)) sample_scraper (CStr [])) = Inr []
   \<and> trace (snd (getRera (sample_env (Inl ConnectionError)) sample_scraper (CStr []))) = []"
  using getRera_empty_path[of "sample_env (Inl ConnectionError)" sample_scraper]
  by (simp add: sample_scraper_def sample_world_def)

lemma extract_rera_nonempty: "extract_rera pg \<noteq> []"
  by (simp add: extract_rera_def Let_def)

lemma is_Timeout_request: "is_Timeout e \<Longrightarrow> is_RequestException e"
  by (cases e) auto

lemma is_RequestException_exception: "is_RequestException e \<Longrightarrow> is_Exception e"
  by (cases e) auto

lemma rera_handler_nonempty: "rera_handler e \<noteq> Inr []"
  by (simp add: rera_handler_def)

lemma rera_handler_caught: "is_Exception e \<Longrightarrow> \<exists>r. rera_handler e = Inr r \<and> r \<noteq> []"
  by (simp add: rera_handler_def)

lemma rera_handler_passes: "rera_handler e = Inl e' \<longleftrightarrow> e' = e \<and> \<not> is_Exception e"
  using is_Timeout_request[of e] is_RequestException_exception[of e]
  by (auto simp: rera_handler_def)

lemma getRera_truthy_nonempty: "truthy pdp_url \<Longrightarrow> fst (getRera ev st pdp_url) \<noteq> Inr []"
  by (auto simp: getRera_def getRera_body_def session_get_def extract_rera_nonempty
        rera_handler_nonempty Let_def split: sum.splits prod.splits)

lemma getRera_returns:
  assumes "truthy pdp_url"
    and "\<And>e. fst (getRera_body ev st (full_url pdp_url)) = Inl e \<Longrightarrow> is_Exception e"
  shows "\<exists>r. fst (getRera ev st pdp_url) = Inr r \<and> r \<noteq> []"
proof (cases "fst (getRera_body ev st (full_url pdp_url))")
  case (Inl e)
  then have "fst (getRera ev st pdp_url) = rera_handler e"
    using assms(1) by (auto simp: getRera_def split: prod.splits sum.splits)
  then show ?thesis using rera_handler_caught[OF assms(2)[OF Inl]] by simp
next
  case (Inr r)
  then have "fst (getRera ev st pdp_url) = Inr r"
    using assms(1) by (auto simp: getRera_def split: prod.splits sum.splits)
  then show ?thesis using getRera_truthy_nonempty[OF assms(1), of ev st] by auto
qed

text \<open>
  C10: for every non-empty detail path the string that \<open>getRera\<close> returns is never
  empty, so the empty result identifies the empty path; and it does return a non-empty
  string whenever the body of its \<open>try\<close> raises nothing outside \<open>Exception\<close>.
\<close>

theorem getRera_nonempty:
  "(p \<noteq> [] \<longrightarrow> fst (getRera ev st (CStr p)) \<noteq> Inr [])
   \<and> (fst (getRera ev st (CStr p)) = Inr [] \<longleftrightarrow> p = [])
   \<and> (p \<noteq> [] \<and> (\<forall>e. fst (getRera_body ev st (full_url (CStr p))) = Inl e \<longrightarrow> is_Exception e)
        \<longrightarrow> (\<exists>r. fst (getRera ev st (CStr p)) = Inr r \<and> r \<noteq> []))"
  using getRera_truthy_nonempty[of "CStr p" ev st] getRera_returns[of "CStr p" ev st]
  by (auto simp: getRera_def)

theorem getRera_nonempty_witness:
  "\<exists>r. fst (getRera (sample_env (Inr (html_response blank_page))) sample_scraper
               (CStr ''pdp/green-acres'')) = Inr r \<and> r \<noteq> []"
proof -
  have "fst (getRera_body (sample_env (Inr (html_response blank_page))) sample_scraper
               (full_url (CStr ''pdp/green-acres''))) = Inr (extract_rera blank_page)"
    by (simp add: getRera_body_def session_get_def next_answer_def sample_env_def
          html_response_def)
  then show ?thesis
    using getRera_nonempty[of "''pdp/green-acres''"
        "sample_env (Inr (html_response blank_page))" sample_scraper]
    by simp
qed

lemma probe_none:
  "list_all (\<lambda>sel. select_one pg sel = None \<or> select_one pg sel = Some []) sels
     \<Longrightarrow> probe pg [] sels = []"
  by (induction sels) auto

lemma scan_none:
  "list_all (\<lambda>t. \<not> contains ''rera'' (lower t)) ps \<Longrightarrow> scan_parents [] ps = []"
  by (induction ps) auto

lemma extract_rera_none:
  "list_all (\<lambda>sel. select_one pg sel = None \<or> select_one pg sel = Some []) rera_selectors
   \<Longrightarrow> list_all (\<lambda>t. \<not> contains ''rera'' (lower t)) (rera_parents pg)
   \<Longrightarrow> extract_rera pg = ''Not Available''"
  by (simp add: extract_rera_def probe_none scan_none)

lemma getRera_raised:
  "truthy pdp_url \<Longrightarrow> fst (getRera_body ev st (full_url pdp_url)) = Inl e
     \<Longrightarrow> fst (getRera ev st pdp_url) = rera_handler e"
  by (auto simp: getRera_def split: prod.splits sum.splits)

lemma getRera_body_get_raises:
  "next_answer ev st url = Inl e \<Longrightarrow> fst (getRera_body ev st url) = Inl e"
  by (simp add: getRera_body_def session_get_def)

lemma getRera_body_status:
  "next_answer ev st url = Inr resp \<Longrightarrow> http_error resp
     \<Longrightarrow> fst (getRera_body ev st url) = Inl HTTPError"
  by (simp add: getRera_body_def session_get_def)

lemma getRera_body_parse_raises:
  "next_answer ev st url = Inr resp \<Longrightarrow> \<not> http_error resp \<Longrightarrow> soup resp = Inl e
     \<Longrightarrow> fst (getRera_body ev st url) = Inl e"
  by (simp add: getRera_body_def session_get_def)

lemma getRera_body_page:
  "next_answer ev st url = Inr resp \<Longrightarrow> \<not> http_error resp \<Longrightarrow> soup resp = Inr pg
     \<Longrightarrow> fst (getRera_body ev st url) = Inr (extract_rera pg)"
  by (simp add: getRera_body_def session_get_def)

lemma getRera_propagates_only_outside:
  "fst (getRera ev st pdp_url) = Inl e \<Longrightarrow> \<not> is_Exception e"
  by (auto simp: getRera_def rera_handler_passes split: prod.splits sum.splits if_splits)

text \<open>
  C5, as the claim states it, fails: \<open>getRera\<close> does propagate an exception. Its last
  clause is \<open>except Exception\<close>, so a \<open>KeyboardInterrupt\<close> raised while the request is
  under way leaves the function; the callers are written for that
  (\<open>except KeyboardInterrupt\<close> in \<open>scrape_multiple_pages\<close> and in \<open>main\<close>).
\<close>

theorem getRera_interrupt_propagates:
  "fst (getRera (sample_env (Inl KeyboardInterrupt)) sample_scraper (CStr ''pdp/green-acres''))
     = Inl KeyboardInterrupt"
  by (simp add: getRera_def getRera_body_def session_get_def next_answer_def sample_env_def
        rera_handler_def)

text \<open>
  C5, amended: \<open>getRera\<close> never propagates an exception derived from \<open>Exception\<close>.
  Every exception \<open>e\<close> that the body of its \<open>try\<close> raises ends as follows: \<open>Timeout\<close>
  for a timeout, \<open>Network Error\<close> for any other request failure, \<open>Error\<close> for any other
  exception derived from \<open>Exception\<close>; an exception outside \<open>Exception\<close>
  (\<open>KeyboardInterrupt\<close>, \<open>SystemExit\<close>) reaches the caller. The body raises what the GET
  raises, \<open>HTTPError\<close> on an error status, and what parsing raises. When the page is
  fetched and no selector yields non-empty text and no fallback text mentions \<open>rera\<close>,
  the result is \<open>Not Available\<close>.
\<close>

theorem getRera_sentinels:
  assumes "truthy pdp_url"
  shows "(fst (getRera ev st pdp_url) = Inl e \<longrightarrow> \<not> is_Exception e)
       \<and> (fst (getRera_body ev st (full_url pdp_url)) = Inl e \<and> is_Timeout e
            \<longrightarrow> fst (getRera ev st pdp_url) = Inr ''Timeout'')
       \<and> (fst (getRera_body ev st (full_url pdp_url)) = Inl e
            \<and> is_RequestException e \<and> \<not> is_Timeout e
            \<longrightarrow> fst (getRera ev st pdp_url) = Inr ''Network Error'')
       \<and> (fst (getRera_body ev st (full_url pdp_url)) = Inl e
            \<and> is_Exception e \<and> \<not> is_RequestException e
            \<longrightarrow> fst (getRera ev st pdp_url) = Inr ''Error'')
       \<and> (fst (getRera_body ev st (full_url pdp_url)) = Inl e \<and> \<not> is_Exception e
            \<longrightarrow> fst (getRera ev st pdp_url) = Inl e)
       \<and> (next_answer ev st (full_url pdp_url) = Inl e
            \<longrightarrow> fst (getRera_body ev st (full_url pdp_url)) = Inl e)
       \<and> (next_answer ev st (full_url pdp_url) = Inr resp \<and> http_error resp
            \<longrightarrow> fst (getRera ev st pdp_url) = Inr ''Network Error'')
       \<and> (next_answer ev st (full_url pdp_url) = Inr resp \<and> \<not> http_error resp
            \<and> soup resp = Inl e
            \<longrightarrow> fst (getRera_body ev st (full_url pdp_url)) = Inl e)
       \<and> (next_answer ev st (full_url pdp_url) = Inr resp \<and> \<not> http_error resp
            \<and> soup resp = Inr pg
            \<and> list_all (\<lambda>sel. select_one pg sel = None \<or> select_one pg sel = Some [])
                 rera_selectors
            \<and> list_all (\<lambda>t. \<not> contains ''rera'' (lower t)) (rera_parents pg)
            \<longrightarrow> fst (getRera ev st pdp_url) = Inr ''Not Available'')"
proof -
  note t = is_Timeout_request[of e] is_RequestException_exception[of e]
  have 0: "fst (getRera ev st pdp_url) = Inl e \<Longrightarrow> \<not> is_Exception e"
    by (rule getRera_propagates_only_outside)
  have 1: "fst (getRera_body ev st (full_url pdp_url)) = Inl e \<Longrightarrow> is_Timeout e
      \<Longrightarrow> fst (getRera ev st pdp_url) = Inr ''Timeout''"
    using getRera_raised[OF assms] by (simp add: rera_handler_def)
  have 2: "fst (getRera_body ev st (full_url pdp_url)) = Inl e \<Longrightarrow> is_RequestException e
      \<Longrightarrow> \<not> is_Timeout e \<Longrightarrow> fst (getRera ev st pdp_url) = Inr ''Network Error''"
    using getRera_raised[OF assms] by (simp add: rera_handler_def)
  have 3: "fst (getRera_body ev st (full_url pdp_url)) = Inl e \<Longrightarrow> is_Exception e
      \<Longrightarrow> \<not> is_RequestException e \<Longrightarrow> fst (getRera ev st pdp_url) = Inr ''Error''"
    using getRera_raised[OF assms] t by (auto simp add: rera_handler_def)
  have 4: "fst (getRera_body ev st (full_url pdp_url)) = Inl e \<Longrightarrow> \<not> is_Exception e
      \<Longrightarrow> fst (getRera ev st pdp_url) = Inl e"
    using getRera_raised[OF assms] t by (auto simp add: rera_handler_def)
  have 5: "next_answer ev st (full_url pdp_url) = Inr resp \<Longrightarrow> http_error resp
      \<Longrightarrow> fst (getRera ev st pdp_url) = Inr ''Network Error''"
    using getRera_raised[OF assms getRera_body_status] by (simp add: rera_handler_def)
  have 7: "next_answer ev st (full_url pdp_url) = Inr resp \<Longrightarrow> \<not> http_error resp
      \<Longrightarrow> soup resp = Inr pg
      \<Longrightarrow> list_all (\<lambda>sel. select_one pg sel = None \<or> select_one pg sel = Some [])
            rera_selectors
      \<Longrightarrow> list_all (\<lambda>t. \<not> contains ''rera'' (lower t)) (rera_parents pg)
      \<Longrightarrow> fst (getRera ev st pdp_url) = Inr ''Not Available''"
    using assms getRera_body_page[of ev st "full_url pdp_url" resp pg]
    by (auto simp: getRera_def extract_rera_none split: prod.splits sum.splits)
  show ?thesis
    using 0 1 2 3 4 5 7 getRera_body_get_raises getRera_body_parse_raises by blast
qed

theorem getRera_sentinels_witness:
  "fst (getRera (sample_env (Inl ReadTimeout)) sample_scraper (CStr ''pdp/green-acres''))
     = Inr ''Timeout''
   \<and> fst (getRera (sample_env (Inl ConnectionError)) sample_scraper (CStr ''pdp/green-acres''))
     = Inr ''Network Error''
   \<and> fst (getRera (sample_env (Inr (html_response blank_page\<lparr>soup := Inl AttributeError\<rparr>)))
          sample_scraper (CStr ''pdp/green-acres'')) = Inr ''Error''
   \<and> fst (getRera (sample_env (Inr (html_response blank_page\<lparr>http_error := True\<rparr>)))
          sample_scraper (CStr ''pdp/green-acres'')) = Inr ''Network Error''
   \<and> fst (getRera (sample_env (Inr (html_response blank_page)))
          sample_scraper (CStr ''pdp/green-acres'')) = Inr ''Not Available''
   \<and> fst (getRera (sample_env (Inl SystemExit)) sample_scraper (CStr ''pdp/green-acres''))
     = Inl SystemExit"
proof -
  have tr: "truthy (CStr ''pdp/green-acres'')" by simp
  note T = getRera_sentinels[OF tr]
  have a: "fst (getRera (sample_env (Inl ReadTimeout)) sample_scraper
                  (CStr ''pdp/green-acres'')) = Inr ''Timeout''"
    using T[of "sample_env (Inl ReadTimeout)" sample_scraper ReadTimeout]
    by (simp add: next_answer_def sample_env_def)
  have b: "fst (getRera (sample_env (Inl ConnectionError)) sample_scraper
                  (CStr ''pdp/green-acres'')) = Inr ''Network Error''"
    using T[of "sample_env (Inl ConnectionError)" sample_scraper ConnectionError]
    by (simp add: next_answer_def sample_env_def)
  have c: "fst (getRera (sample_env (Inr (html_response blank_page\<lparr>soup := Inl AttributeError\<rparr>)))
          sample_scraper (CStr ''pdp/green-acres'')) = Inr ''Error''"
    using T[of "sample_env (Inr (html_response blank_page\<lparr>soup := Inl AttributeError\<rparr>))"
        sample_scraper AttributeError "html_response blank_page\<lparr>soup := Inl AttributeError\<rparr>"]
    by (simp add: next_answer_def sample_env_def html_response_def)
  have d: "fst (getRera (sample_env (Inr (html_response blank_page\<lparr>http_error := True\<rparr>)))
          sample_scraper (CStr ''pdp/green-acres'')) = Inr ''Network Error''"
    using T[of "sample_env (Inr (html_response blank_page\<lparr>http_error := True\<rparr>))"
        sample_scraper _ "html_response blank_page\<lparr>http_error := True\<rparr>"]
    by (simp add: next_answer_def sample_env_def html_response_def)
  have e: "fst (getRera (sample_env (Inr (html_response blank_page)))
          sample_scraper (CStr ''pdp/green-acres'')) = Inr ''Not Available''"
    using T[of "sample_env (Inr (html_response blank_page))" sample_scraper
        _ "html_response blank_page" blank_page]
    by (simp add: next_answer_def sample_env_def html_response_def blank_page_def
          rera_selectors_def)
  have f: "fst (getRera (sample_env (Inl SystemExit)) sample_scraper
                  (CStr ''pdp/green-acres'')) = Inl SystemExit"
    using T[of "sample_env (Inl SystemExit)" sample_scraper SystemExit]
    by (simp add: next_answer_def sample_env_def)
  show ?thesis using a b c d e f by blast
qed

section \<open>Properties of the Page Harvester\<close>

text \<open>
  C7: for every page index, when the listing request fails with an exception derived
  from \<open>Exception\<close> (a network error, invalid JSON, or any other one), the status is an
  error, the body cannot be searched for the key, or the body lacks the
  \<open>projectsCards\<close> key, \<open>scrape_single_page\<close> returns no records and zeroed counters
  and raises nothing. (An interrupt of the operator is no failure of the request; it
  passes the three \<open>except\<close> clauses.)
\<close>

theorem scrape_single_page_failure:
  assumes "(next_answer ev st (listing_url page_no) = Inl e \<and> is_Exception e)
         \<or> (next_answer ev st (listing_url page_no) = Inr resp
              \<and> (http_error resp \<or> (json_data resp = Inl e \<and> is_Exception e)
                   \<or> (json_data resp = Inr (Unusable e) \<and> is_Exception e)
                   \<or> json_data resp = Inr NoCardsKey))"
  shows "fst (scrape_single_page ev st page_no) = Inr ([], \<lparr>success = 0, failed = 0\<rparr>)"
  using assms
  by (auto simp: scrape_single_page_def scrape_single_page_body_def session_get_def
        zero_stats_def)

theorem scrape_single_page_failure_witness:
  "fst (scrape_single_page (sample_env (Inr (json_response NoCardsKey))) sample_scraper 7)
     = Inr ([], \<lparr>success = 0, failed = 0\<rparr>)
   \<and> fst (scrape_single_page (sample_env (Inl ConnectionError)) sample_scraper 7)
     = Inr ([], \<lparr>success = 0, failed = 0\<rparr>)
   \<and> fst (scrape_single_page
            (sample_env (Inr ((json_response NoCardsKey)\<lparr>json_data := Inl JSONDecodeError\<rparr>)))
            sample_scraper 7)
     = Inr ([], \<lparr>success = 0, failed = 0\<rparr>)
   \<and> fst (scrape_single_page (sample_env (Inl TypeError)) sample_scraper 7)
     = Inr ([], \<lparr>success = 0, failed = 0\<rparr>)"
proof -
  have a: "fst (scrape_single_page (sample_env (Inr (json_response NoCardsKey))) sample_scraper 7)
     = Inr ([], \<lparr>success = 0, failed = 0\<rparr>)"
    by (rule scrape_single_page_failure[where resp = "json_response NoCardsKey"])
       (simp add: next_answer_def sample_env_def json_response_def)
  have b: "fst (scrape_single_page (sample_env (Inl ConnectionError)) sample_scraper 7)
     = Inr ([], \<lparr>success = 0, failed = 0\<rparr>)"
    by (rule scrape_single_page_failure[where e = ConnectionError])
       (simp add: next_answer_def sample_env_def)
  have c: "fst (scrape_single_page
            (sample_env (Inr ((json_response NoCardsKey)\<lparr>json_data := Inl JSONDecodeError\<rparr>)))
            sample_scraper 7)
     = Inr ([], \<lparr>success = 0, failed = 0\<rparr>)"
    by (rule scrape_single_page_failure[where e = JSONDecodeError
          and resp = "(json_response NoCardsKey)\<lparr>json_data := Inl JSONDecodeError\<rparr>"])
       (simp add: next_answer_def sample_env_def json_response_def)
  have d: "fst (scrape_single_page (sample_env (Inl TypeError)) sample_scraper 7)
     = Inr ([], \<lparr>success = 0, failed = 0\<rparr>)"
    by (rule scrape_single_page_failure[where e = TypeError])
       (simp add: next_answer_def sample_env_def)
  show ?thesis using a b c d by blast
qed

lemma build_record_keys: "map fst (build_record project) = fieldnames"
  by (simp add: build_record_def fieldnames_def)

lemma update_rera_keys:
  "map fst (AList.update ''RERA Number'' v (build_record project)) = fieldnames"
  by (simp add: build_record_def fieldnames_def)

lemma update_rera_value:
  "map_of (AList.update ''RERA Number'' v (build_record project)) ''RERA Number'' = Some v"
  by (simp add: update_conv')

text \<open>
  C4: one turn of the loop of \<open>scrape_single_page\<close> on a raw record that is a JSON
  object. When the record carries a non-empty detail path and \<open>getRera\<close> returns \<open>r\<close>,
  the turn appends exactly one record whose registration field holds \<open>r\<close>, and the
  record counts as a registration success iff \<open>r\<close> is non-empty and none of
  \<open>Not Available\<close>, \<open>Timeout\<close>, \<open>Network Error\<close>, \<open>Error\<close>, else as a failure; nothing
  is raised. (When \<open>getRera\<close> returns nothing because an exception outside
  \<open>Exception\<close> passes through it, no record is appended or counted and the exception
  leaves the turn.) Without a detail path the turn appends exactly one record whose
  registration field is \<open>No PDP URL\<close>, the record counts as a failure, nothing is
  raised and no call is issued.
\<close>

theorem process_project_registration:
  assumes "process_project ev (projects, rera_stats, st) (Card project)
             = (x, projects', rera_stats', st')"
  shows "if truthy (dict_get project ''pdpUrl'') then
        (case fst (getRera ev st (dict_get project ''pdpUrl'')) of
           Inr r \<Rightarrow>
             x = None
             \<and> (\<exists>project_data. projects' = projects @ [project_data]
                   \<and> map_of project_data ''RERA Number'' = Some (CStr r))
             \<and> (if r \<noteq> [] \<and> r \<noteq> ''Not Available'' \<and> r \<noteq> ''Timeout''
                    \<and> r \<noteq> ''Network Error'' \<and> r \<noteq> ''Error''
                 then success rera_stats' = success rera_stats + 1
                    \<and> failed rera_stats' = failed rera_stats
                 else success rera_stats' = success rera_stats
                    \<and> failed rera_stats' = failed rera_stats + 1)
         | Inl e \<Rightarrow>
             x = Some e \<and> \<not> is_Exception e
             \<and> projects' = projects \<and> rera_stats' = rera_stats)
      else x = None
         \<and> (\<exists>project_data. projects' = projects @ [project_data]
               \<and> map_of project_data ''RERA Number'' = Some (CStr ''No PDP URL''))
         \<and> success rera_stats' = success rera_stats
         \<and> failed rera_stats' = failed rera_stats + 1
         \<and> trace st' = trace st"
proof (cases "truthy (dict_get project ''pdpUrl'')")
  case True
  obtain g st1 where g: "getRera ev st (dict_get project ''pdpUrl'') = (g, st1)"
    by (cases "getRera ev st (dict_get project ''pdpUrl'')")
  show ?thesis
  proof (cases g)
    case (Inl e)
    then have "\<not> is_Exception e"
      using getRera_propagates_only_outside[of ev st "dict_get project ''pdpUrl''" e] g by simp
    then show ?thesis
      using assms True g Inl by (auto simp: Let_def)
  next
    case (Inr r)
    then show ?thesis
      using assms True g
      by (auto simp: Let_def rera_failures_def update_rera_value)
  qed
next
  case False
  show ?thesis
    using assms False
    by (auto simp: Let_def update_rera_value)
qed

lemma getRera_rera_page:
  "getRera (sample_env (Inr (html_response rera_page))) sample_scraper (CStr ''pdp/green-acres'')
    = (Inr ''P52100012345'',
       sample_scraper\<lparr>trace := [HttpGet ''https://www.magicbricks.com/pdp/green-acres'']\<rparr>)"
  by (simp add: getRera_def getRera_body_def session_get_def next_answer_def sample_env_def
      html_response_def rera_page_def extract_rera_def rera_selectors_def full_url_def
      sample_scraper_def sample_world_def)

theorem process_project_registration_witness:
  "success (fst (snd (snd (process_project (sample_env (Inr (html_response rera_page)))
       ([], zero_stats, sample_scraper) (Card sample_card))))) = 1
   \<and> failed (fst (snd (snd (process_project (sample_env (Inr (html_response rera_page)))
       ([], zero_stats, sample_scraper) (Card bare_card))))) = 1
   \<and> fst (process_project (sample_env (Inr (html_response rera_page)))
       ([], zero_stats, sample_scraper) (Card sample_card)) = None"
proof -
  let ?ev = "sample_env (Inr (html_response rera_page))"
  have p: "dict_get sample_card ''pdpUrl'' = CStr ''pdp/green-acres''"
    by (simp add: dict_get_def sample_card_def)
  have q: "dict_get bare_card ''pdpUrl'' = CStr []"
    by (simp add: dict_get_def bare_card_def)
  obtain x ps rs st' where
    a: "process_project ?ev ([], zero_stats, sample_scraper) (Card sample_card)
          = (x, ps, rs, st')"
    by (metis prod_cases4)
  obtain x2 ps2 rs2 st2 where
    b: "process_project ?ev ([], zero_stats, sample_scraper) (Card bare_card)
          = (x2, ps2, rs2, st2)"
    by (metis prod_cases4)
  have "success rs = 1 \<and> x = None"
    using process_project_registration[OF a]
    by (auto simp add: p getRera_rera_page zero_stats_def)
  moreover have "failed rs2 = 1"
    using process_project_registration[OF b] by (auto simp add: q zero_stats_def)
  ultimately show ?thesis unfolding a b by simp
qed

section \<open>Properties of the Persistence Sink\<close>

text \<open>
  C1, as the claim states it, fails: on an empty sequence \<open>write_to_csv\<close> returns
  \<open>False\<close>, not \<open>True\<close> (\<open>if not projects: return False\<close>).
\<close>

theorem write_to_csv_empty_not_true: "\<not> fst (write_to_csv sample_scraper [] ModeW)"
  by (simp add: write_to_csv_def)

text \<open>
  C1, amended: for the empty sequence of records \<open>write_to_csv\<close> returns false and
  performs no file operation, in write mode and in append mode: the file system and the
  trace of calls are those it was given.
\<close>

theorem write_to_csv_empty_batch:
  "write_to_csv st [] m = (False, st)"
  by (simp add: write_to_csv_def)

theorem write_to_csv_empty_batch_witness:
  "write_to_csv stale_scraper [] ModeW = (False, stale_scraper)
   \<and> write_to_csv stale_scraper [] ModeA = (False, stale_scraper)"
  using write_to_csv_empty_batch[of stale_scraper ModeW]
    write_to_csv_empty_batch[of stale_scraper ModeA]
  by simp

lemma distinct_fieldnames: "distinct fieldnames"
  by (simp add: fieldnames_def)

lemma map_of_keys_values:
  "distinct (map fst al) \<Longrightarrow>
     map (\<lambda>k. case map_of al k of None \<Rightarrow> d | Some v \<Rightarrow> v) (map fst al) = map snd al"
proof (induction al)
  case Nil
  show ?case by simp
next
  case (Cons a al)
  have "map (\<lambda>k. case map_of (a # al) k of None \<Rightarrow> d | Some v \<Rightarrow> v) (map fst al)
        = map (\<lambda>k. case map_of al k of None \<Rightarrow> d | Some v \<Rightarrow> v) (map fst al)"
    using Cons.prems by (intro map_cong) (auto simp: rev_image_eqI)
  then show ?case using Cons by simp
qed

text \<open>A dictionary whose keys are the field names, in order, is written value by value.\<close>

lemma dict_row_record:
  assumes "map fst project = fieldnames"
  shows "dict_row project = Inr (map snd project)"
proof -
  have "distinct (map fst project)" using assms distinct_fieldnames by simp
  from map_of_keys_values[OF this, of "CStr []"] show ?thesis
    using assms by (simp add: dict_row_def)
qed

lemma write_rows_ok:
  "list_all (\<lambda>p. map fst p = fieldnames) projects
     \<Longrightarrow> fst (write_rows st name projects) = None"
  by (induction projects arbitrary: st) (simp_all add: dict_row_record)

lemma write_rows_trace: "trace (snd (write_rows st name projects)) = trace st"
  by (induction projects arbitrary: st) (simp_all add: append_row_def split: sum.splits)

lemma write_rows_json_filename:
  "json_filename (snd (write_rows st name projects)) = json_filename st"
  by (induction projects arbitrary: st) (simp_all add: append_row_def split: sum.splits)

lemma write_rows_files:
  "list_all (\<lambda>p. map fst p = fieldnames) projects \<Longrightarrow> files st name = Some rows \<Longrightarrow>
     files (snd (write_rows st name projects)) name = Some (rows @ map (map snd) projects)"
proof (induction projects arbitrary: st rows)
  case Nil
  then show ?case by simp
next
  case (Cons p ps)
  have "files (append_row st name (map snd p)) name = Some (rows @ [map snd p])"
    using Cons.prems(2) by (simp add: append_row_def)
  from Cons.IH[OF _ this] Cons.prems(1) show ?case
    by (simp add: dict_row_record)
qed

lemma process_project_keys:
  assumes "list_all (\<lambda>p. map fst p = fieldnames) (fst acc)"
  shows "list_all (\<lambda>p. map fst p = fieldnames) (fst (snd (process_project ev acc rc)))"
proof -
  obtain projects rs st where acc: "acc = (projects, rs, st)" by (metis prod_cases3)
  show ?thesis
  proof (cases rc)
    case NotObject
    then show ?thesis using assms acc by simp
  next
    case (Card project)
    then show ?thesis using assms acc
      by (auto simp: Let_def update_rera_keys split: prod.splits sum.splits)
  qed
qed

lemma process_cards_keys:
  "list_all (\<lambda>p. map fst p = fieldnames) (fst acc) \<Longrightarrow>
   list_all (\<lambda>p. map fst p = fieldnames) (fst (snd (process_cards ev acc cards)))"
proof (induction cards arbitrary: acc)
  case Nil
  then show ?case by simp
next
  case (Cons c cards)
  obtain x acc' where s: "process_project ev acc c = (x, acc')"
    by (cases "process_project ev acc c")
  have k: "list_all (\<lambda>p. map fst p = fieldnames) (fst acc')"
    using process_project_keys[OF Cons.prems, of ev c] s by simp
  show ?case
  proof (cases x)
    case None
    then show ?thesis using Cons.IH[OF k] s by simp
  next
    case (Some e)
    then show ?thesis using k s by simp
  qed
qed

text \<open>Every record that the harvester returns has the eight fields, in the header's order.\<close>

lemma scrape_single_page_keys:
  "list_all (\<lambda>p. map fst p = fieldnames)
     (page_records (fst (scrape_single_page ev st page_no)))"
proof -
  have "list_all (\<lambda>p. map fst p = fieldnames) projects"
    if "process_cards ev ([], zero_stats, st1) cards = (x, projects, rs, st2)"
    for st1 cards x projects rs st2
    using process_cards_keys[of "([], zero_stats, st1)" ev cards] that by simp
  then show ?thesis
    by (auto simp: scrape_single_page_def scrape_single_page_body_def page_records_def
          split: prod.splits sum.splits listing.splits option.splits)
qed

lemma write_to_csv_records:
  assumes "list_all (\<lambda>p. map fst p = fieldnames) projects" "projects \<noteq> []"
    "dir_exists st (dirname (csv_filename st))"
  shows "fst (write_to_csv st projects m)"
    and "files (snd (write_to_csv st projects m)) (csv_filename st) =
           Some (prior_rows st m
                 @ (if m = ModeW \<or> prior_rows st m = [] then [map CStr fieldnames] else [])
                 @ map (map snd) projects)"
    and "trace (snd (write_to_csv st projects m)) = trace st @ [OpenFile (csv_filename st) m]"
proof -
  let ?n = "csv_filename st"
  obtain st1 where o: "open_file st ?n m = (None, st1)"
    and f1: "files st1 ?n = Some (prior_rows st m)"
    and t1: "trace st1 = trace st @ [OpenFile ?n m]"
    using assms(3) by (simp add: open_file_def prior_rows_def Let_def)
  define st2 where "st2 = (if m = ModeW \<or> tell st1 ?n = 0
                         then append_row st1 ?n (map CStr fieldnames) else st1)"
  have tl: "tell st1 ?n = 0 \<longleftrightarrow> prior_rows st m = []"
    using f1 by (simp add: tell_def)
  have f2: "files st2 ?n = Some (prior_rows st m
                 @ (if m = ModeW \<or> prior_rows st m = [] then [map CStr fieldnames] else []))"
    using f1 tl by (simp add: st2_def append_row_def)
  have t2: "trace st2 = trace st1"
    by (simp add: st2_def append_row_def)
  have w: "write_to_csv st projects m =
             (case write_rows st2 ?n projects of
                (Some e, st3) \<Rightarrow> (False, st3) | (None, st3) \<Rightarrow> (True, st3))"
    using assms(2) by (simp add: write_to_csv_def o st2_def Let_def)
  obtain st3 where r: "write_rows st2 ?n projects = (None, st3)"
    using write_rows_ok[OF assms(1), of st2 ?n] by (cases "write_rows st2 ?n projects") auto
  have eq: "write_to_csv st projects m = (True, st3)"
    by (simp add: w r)
  show "fst (write_to_csv st projects m)" by (simp add: eq)
  show "files (snd (write_to_csv st projects m)) ?n =
           Some (prior_rows st m
                 @ (if m = ModeW \<or> prior_rows st m = [] then [map CStr fieldnames] else [])
                 @ map (map snd) projects)"
    using write_rows_files[OF assms(1) f2] by (simp add: eq r)
  show "trace (snd (write_to_csv st projects m)) = trace st @ [OpenFile ?n m]"
    using write_rows_trace[of st2 ?n projects] by (simp add: eq r t2 t1)
qed

lemma bare_record_keys: "map fst bare_record = fieldnames"
  by (simp add: bare_record_def update_rera_keys)

text \<open>
  C9: the header has the eight fields Name, Developer Name, Price Range, No of units,
  Brochure, Total Acres, Floor Plan, RERA Number; every record that the harvester
  returns has exactly these fields in this order; and a successful write of such records
  leaves in the file the rows it held when opened, then the header row exactly when the
  mode is write or the file was empty, then one row per record holding the values of the
  record in the order of the header.
\<close>

theorem csv_rows_follow_header:
  "fieldnames = [''Name'', ''Developer Name'', ''Price Range'', ''No of units'',
                 ''Brochure'', ''Total Acres'', ''Floor Plan'', ''RERA Number'']
   \<and> list_all (\<lambda>p. map fst p = fieldnames)
        (page_records (fst (scrape_single_page ev st0 page_no)))
   \<and> (list_all (\<lambda>p. map fst p = fieldnames) projects \<and> projects \<noteq> []
        \<and> dir_exists st (dirname (csv_filename st))
      \<longrightarrow> fst (write_to_csv st projects m)
        \<and> files (snd (write_to_csv st projects m)) (csv_filename st) =
            Some (prior_rows st m
                  @ (if m = ModeW \<or> prior_rows st m = [] then [map CStr fieldnames] else [])
                  @ map (map snd) projects))"
  using scrape_single_page_keys[of ev st0 page_no]
    write_to_csv_records(1)[of projects st m] write_to_csv_records(2)[of projects st m]
  by (simp add: fieldnames_def)

theorem csv_rows_follow_header_witness:
  "files (snd (write_to_csv sample_scraper [bare_record] ModeA)) ''output/magicbricks_projects.csv''
     = Some [map CStr fieldnames, map snd bare_record]
   \<and> files (snd (write_to_csv stale_scraper [bare_record] ModeA)) ''output/magicbricks_projects.csv''
     = Some [[CStr ''stale''], map snd bare_record]
   \<and> files (snd (write_to_csv stale_scraper [bare_record] ModeW)) ''output/magicbricks_projects.csv''
     = Some [map CStr fieldnames, map snd bare_record]"
proof -
  have k: "list_all (\<lambda>p. map fst p = fieldnames) [bare_record]"
    by (simp add: bare_record_keys)
  have d1: "dir_exists sample_scraper (dirname (csv_filename sample_scraper))"
    by (simp add: dir_exists_def dirname_def sample_scraper_def sample_world_def)
  have d2: "dir_exists stale_scraper (dirname (csv_filename stale_scraper))"
    by (simp add: dir_exists_def dirname_def stale_scraper_def sample_scraper_def
          sample_world_def)
  have p1: "prior_rows sample_scraper ModeA = []"
    by (simp add: prior_rows_def sample_scraper_def sample_world_def)
  have p2: "prior_rows stale_scraper ModeA = [[CStr ''stale'']]"
    by (simp add: prior_rows_def stale_scraper_def sample_scraper_def sample_world_def)
  have p3: "prior_rows stale_scraper ModeW = []"
    by (simp add: prior_rows_def)
  have n1: "csv_filename sample_scraper = ''output/magicbricks_projects.csv''"
    by (simp add: sample_scraper_def sample_world_def)
  have n2: "csv_filename stale_scraper = ''output/magicbricks_projects.csv''"
    by (simp add: stale_scraper_def sample_scraper_def sample_world_def)
  show ?thesis
    using csv_rows_follow_header[of _ _ _ "[bare_record]" sample_scraper ModeA]
      csv_rows_follow_header[of _ _ _ "[bare_record]" stale_scraper ModeA]
      csv_rows_follow_header[of _ _ _ "[bare_record]" stale_scraper ModeW]
      k d1 d2
    by (simp add: p1 p2 p3 n1 n2)
qed

section \<open>Properties of the Run Controller\<close>

lemma write_to_csv_json_filename:
  "json_filename (snd (write_to_csv st projects m)) = json_filename st"
proof (cases "projects = []")
  case True
  then show ?thesis by (simp add: write_to_csv_def)
next
  case False
  obtain r st1 where o: "open_file st (csv_filename st) m = (r, st1)"
    by (cases "open_file st (csv_filename st) m")
  have j1: "json_filename st1 = json_filename st"
    using o by (auto simp: open_file_def Let_def split: if_splits)
  show ?thesis
  proof (cases r)
    case (Some e)
    then show ?thesis using False o j1 by (simp add: write_to_csv_def)
  next
    case None
    define st2 where "st2 = (if m = ModeW \<or> tell st1 (csv_filename st) = 0
        then append_row st1 (csv_filename st) (map CStr fieldnames) else st1)"
    have j2: "json_filename st2 = json_filename st"
      using j1 by (simp add: st2_def append_row_def)
    have "snd (write_to_csv st projects m) = snd (write_rows st2 (csv_filename st) projects)"
      using False o None
      by (simp add: write_to_csv_def st2_def Let_def split: prod.splits option.splits)
    then show ?thesis
      using write_rows_json_filename[of st2 "csv_filename st" projects] j2 by simp
  qed
qed

lemma csv_opens_append: "csv_opens name (xs @ ys) = csv_opens name xs @ csv_opens name ys"
  by (induction name xs rule: csv_opens.induct) auto

text \<open>
  The loop keeps every record of the batch in \<open>all_projects\<close>, so the test
  \<open>not all_projects\<close> of the final flush is never true for a batch that is flushed:
  the final flush always opens the file in append mode.
\<close>

lemma pages_loop_batch_in_all:
  "pages_loop ev sp ep bs pages (all_projects, current_batch, t, st)
      = (x, all_projects', current_batch', t', st')
   \<Longrightarrow> (current_batch \<noteq> [] \<longrightarrow> all_projects \<noteq> [])
   \<Longrightarrow> (current_batch' \<noteq> [] \<longrightarrow> all_projects' \<noteq> [])"
proof (induction pages arbitrary: all_projects current_batch t st)
  case Nil
  then show ?case by simp
next
  case (Cons page_no rest)
  show ?case
  proof (cases "interrupt ev page_no")
    case True
    then show ?thesis using Cons.prems by simp
  next
    case False
    obtain r st1 where sp: "scrape_single_page ev st page_no = (r, st1)"
      by (metis prod.exhaust)
    show ?thesis
    proof (cases r)
      case (Inl e)
      show ?thesis
      proof (cases "e \<noteq> KeyboardInterrupt \<and> is_Exception e")
        case True
        then have "pages_loop ev sp ep bs rest
              (all_projects, current_batch, t, st1\<lparr>failed_count := failed_count st1 + 1\<rparr>)
            = (x, all_projects', current_batch', t', st')"
          using Cons.prems(1) False sp Inl by simp
        from Cons.IH[OF this Cons.prems(2)] show ?thesis .
      next
        case stop: False
        then show ?thesis
          using Cons.prems False sp Inl by (auto split: if_splits)
      qed
    next
      case (Inr pr)
      obtain page_projects prs where pr: "pr = (page_projects, prs)"
        by (cases pr)
      obtain a b s where step:
        "(if page_projects \<noteq> [] then
            (let all_projects = all_projects @ page_projects;
                 current_batch = current_batch @ page_projects
             in if int (length current_batch) \<ge> bs then
                  (let m = (if page_no = sp \<and> int (length all_projects) \<le> bs
                            then ModeW else ModeA)
                   in (all_projects, [], snd (write_to_csv st1 current_batch m)))
                else (all_projects, current_batch, st1))
          else (all_projects, current_batch, st1)) = (a, b, s)"
        by (metis prod_cases3)
      have inv: "b \<noteq> [] \<longrightarrow> a \<noteq> []"
        using step Cons.prems(2) by (auto simp: Let_def split: if_splits)
      have "pages_loop ev sp ep bs rest
              (a, b, add_stats t prs, if page_no < ep then sleep 2 s else s)
            = (x, all_projects', current_batch', t', st')"
        using Cons.prems(1) False sp Inr pr step by (simp add: Let_def)
      from Cons.IH[OF this inv] show ?thesis .
    qed
  qed
qed

lemma final_flush_appends:
  assumes "pages_loop ev sp ep bs pages ([], [], t, st)
             = (x, all_projects, current_batch, t', st')"
  shows "final_flush all_projects current_batch st' =
           (if current_batch \<noteq> [] then snd (write_to_csv st' current_batch ModeA) else st')"
  using pages_loop_batch_in_all[OF assms] by (simp add: final_flush_def)

lemma small_run_answer:
  "next_answer small_run_env st url = Inr (json_response (Cards three_cards))"
  by (simp add: next_answer_def small_run_env_def sample_env_def)

lemma small_run_interrupt: "\<not> interrupt small_run_env p"
  by (simp add: small_run_env_def sample_env_def)

lemma process_bare_card:
  "process_project ev (ps, rs, st) (Card bare_card)
     = (None, ps @ [bare_record], rs\<lparr>failed := failed rs + 1\<rparr>,
        st\<lparr>scraped_count := scraped_count st + 1\<rparr>)"
  by (simp add: dict_get_def bare_card_def Let_def bare_record_def)

lemma small_page:
  "scrape_single_page small_run_env st p =
     (Inr ([bare_record, bare_record, bare_record], \<lparr>success = 0, failed = 3\<rparr>),
      st\<lparr>trace := trace st @ [HttpGet (listing_url p)],
         scraped_count := scraped_count st + 3\<rparr>)"
  by (simp add: scrape_single_page_def scrape_single_page_body_def session_get_def
        small_run_answer json_response_def three_cards_def process_bare_card zero_stats_def
        del: process_project.simps)

lemma small_loop:
  "pages_loop small_run_env 1 1 20 [1] ([], [], zero_stats, sample_scraper) =
     (None, [bare_record, bare_record, bare_record], [bare_record, bare_record, bare_record],
      \<lparr>success = 0, failed = 3\<rparr>,
      sample_scraper\<lparr>trace := [HttpGet (listing_url 1)], scraped_count := 3\<rparr>)"
  by (simp add: small_run_interrupt small_page add_stats_def zero_stats_def
        sample_scraper_def sample_world_def)

text \<open>
  C2 fails on the code. A run over page 1 alone with batch size 20, whose page yields
  three records, flushes once, after the loop; this first flush of the run opens the
  tabular file in append mode, not in write mode.
\<close>

theorem first_flush_at_finalization_appends:
  "csv_opens (csv_filename sample_scraper)
     (trace (snd (scrape_multiple_pages small_run_env sample_scraper 1 1 20))) = [ModeA]"
proof -
  let ?b = "[bare_record, bare_record, bare_record]"
  let ?st1 = "sample_scraper\<lparr>trace := [HttpGet (listing_url 1)], scraped_count := 3\<rparr>"
  have ne: "\<not> path_exists sample_scraper (csv_filename sample_scraper)"
    by (simp add: path_exists_def sample_scraper_def sample_world_def)
  have run: "snd (scrape_multiple_pages small_run_env sample_scraper 1 1 20)
               = save_json ?b (snd (write_to_csv ?st1 ?b ModeA))"
    by (simp add: scrape_multiple_pages_def ne small_loop final_flush_def
          del: pages_loop.simps)
  have d: "dir_exists ?st1 (dirname (csv_filename ?st1))"
    by (simp add: dir_exists_def dirname_def sample_scraper_def sample_world_def)
  have k: "list_all (\<lambda>p. map fst p = fieldnames) ?b"
    by (simp add: bare_record_keys)
  have t: "trace (snd (write_to_csv ?st1 ?b ModeA))
             = [HttpGet (listing_url 1), OpenFile (csv_filename sample_scraper) ModeA]"
    using write_to_csv_records(3)[OF k _ d, of ModeA] by simp
  have j: "json_filename (snd (write_to_csv ?st1 ?b ModeA)) \<noteq> csv_filename sample_scraper"
    by (simp add: write_to_csv_json_filename sample_scraper_def sample_world_def)
  show ?thesis
    by (simp add: run save_json_def t Let_def j)
qed

text \<open>
  The constructor with its default argument gives the sample scrapers; the second one
  finds the tabular file of an earlier run.
\<close>

lemma init_sample: "init sample_world ''output'' = Inr sample_scraper"
  by (simp add: init_def sample_world_def sample_scraper_def path_join_def)

lemma init_stale:
  "init (sample_world\<lparr>dirs := {''output''},
           files := [''output/magicbricks_projects.csv'' \<mapsto> [[CStr ''stale'']]]\<rparr>) ''output''
     = Inr stale_scraper"
  by (simp add: init_def sample_world_def sample_scraper_def stale_scraper_def path_join_def)

lemma str_nat_now: "str_nat 1700000000 = ''1700000000''"
  by (simp add: str_nat.simps)

text \<open>
  The backup name prefixes the whole path of the tabular file, directory included: when
  no directory of that prefixed name exists, \<open>os.rename\<close> raises, the exception leaves
  \<open>scrape_multiple_pages\<close>, and the file is neither renamed nor written.
\<close>

lemma backup_rename_missing_directory:
  assumes "path_exists st (csv_filename st)"
    and "\<not> dir_exists st (dirname (backup_name ev st))"
  shows "scrape_multiple_pages ev st 1 end_page batch_size =
     (Inl FileNotFoundError,
      st\<lparr>trace := trace st @ [Rename (csv_filename st) (backup_name ev st)]\<rparr>)"
  using assms
  by (auto simp: scrape_multiple_pages_def os_rename_def path_exists_def Let_def)

text \<open>
  C8 fails on the code. A scraper built with the default output directory, started from
  page 1 while \<open>output/magicbricks_projects.csv\<close> exists, asks to rename it to
  \<open>backup_1700000000_output/magicbricks_projects.csv\<close>; the directory
  \<open>backup_1700000000_output\<close> does not exist, so the run ends with
  \<open>FileNotFoundError\<close>, the old file still under its old name.
\<close>

theorem backup_rename_raises:
  "fst (scrape_multiple_pages small_run_env stale_scraper 1 104 20) = Inl FileNotFoundError
   \<and> trace (snd (scrape_multiple_pages small_run_env stale_scraper 1 104 20))
       = [Rename ''output/magicbricks_projects.csv''
                 ''backup_1700000000_output/magicbricks_projects.csv'']
   \<and> files (snd (scrape_multiple_pages small_run_env stale_scraper 1 104 20))
         ''output/magicbricks_projects.csv'' = Some [[CStr ''stale'']]
   \<and> files (snd (scrape_multiple_pages small_run_env stale_scraper 1 104 20))
         ''backup_1700000000_output/magicbricks_projects.csv'' = None"
proof -
  have "scrape_multiple_pages small_run_env stale_scraper 1 104 20 =
     (Inl FileNotFoundError,
      stale_scraper\<lparr>trace := [Rename ''output/magicbricks_projects.csv''
                                   ''backup_1700000000_output/magicbricks_projects.csv'']\<rparr>)"
    by (simp add: scrape_multiple_pages_def path_exists_def stale_scraper_def
          sample_scraper_def sample_world_def os_rename_def backup_name_def small_run_env_def
          sample_env_def str_nat_now dir_exists_def dirname_def)
  then show ?thesis
    by (simp add: stale_scraper_def sample_scraper_def sample_world_def)
qed

text \<open>
  No operation removes a call from the trace: each one extends it.
\<close>

lemma getRera_trace: "\<exists>ys. trace (snd (getRera ev st pdp_url)) = trace st @ ys"
  by (auto simp: getRera_def getRera_body_def session_get_def
        split: prod.splits sum.splits if_splits)

lemma process_project_trace:
  "\<exists>ys. trace (snd (snd (snd (process_project ev (ps, rs, st) rc)))) = trace st @ ys"
proof (cases rc)
  case NotObject
  then show ?thesis by simp
next
  case (Card project)
  obtain r st1 where g: "getRera ev st (dict_get project ''pdpUrl'') = (r, st1)"
    by (cases "getRera ev st (dict_get project ''pdpUrl'')")
  obtain ys where "trace st1 = trace st @ ys"
    using getRera_trace[of ev st "dict_get project ''pdpUrl''"] g by auto
  then show ?thesis
    using Card g by (cases r) (simp_all add: Let_def sleep_def)
qed

lemma process_cards_trace:
  "\<exists>ys. trace (snd (snd (snd (process_cards ev (ps, rs, st) cards)))) = trace st @ ys"
proof (induction cards arbitrary: ps rs st)
  case Nil
  show ?case by simp
next
  case (Cons c cards)
  obtain x ps1 rs1 st1 where s: "process_project ev (ps, rs, st) c = (x, ps1, rs1, st1)"
    by (metis prod_cases4)
  obtain ys where y: "trace st1 = trace st @ ys"
    using process_project_trace[of ev ps rs st c] s by auto
  show ?case
  proof (cases x)
    case (Some e)
    then show ?thesis using s y by simp
  next
    case None
    obtain zs where
      "trace (snd (snd (snd (process_cards ev (ps1, rs1, st1) cards)))) = trace st1 @ zs"
      using Cons.IH[of ps1 rs1 st1] by auto
    then show ?thesis using s y None by simp
  qed
qed

lemma scrape_single_page_body_trace:
  "\<exists>ys. trace (snd (scrape_single_page_body ev st page_no)) = trace st @ ys"
proof -
  have "\<exists>ys. trace st2 = trace st @ ys"
    if "process_cards ev ([], zero_stats, st\<lparr>trace := trace st @ [e]\<rparr>) cards
          = (x, projects, rs, st2)"
    for e cards x projects rs st2
    using process_cards_trace[of ev "[]" zero_stats "st\<lparr>trace := trace st @ [e]\<rparr>" cards]
      that by auto
  then show ?thesis
    by (auto simp: scrape_single_page_body_def session_get_def
          split: prod.splits sum.splits listing.splits option.splits)
qed

lemma scrape_single_page_state:
  "snd (scrape_single_page ev st page_no) = snd (scrape_single_page_body ev st page_no)"
  by (auto simp: scrape_single_page_def split: prod.splits sum.splits)

lemma scrape_single_page_trace:
  "\<exists>ys. trace (snd (scrape_single_page ev st page_no)) = trace st @ ys"
  unfolding scrape_single_page_state by (rule scrape_single_page_body_trace)

lemma write_to_csv_trace:
  "\<exists>ys. trace (snd (write_to_csv st projects m)) = trace st @ ys"
proof (cases "projects = []")
  case True
  then show ?thesis by (simp add: write_to_csv_def)
next
  case False
  obtain r st1 where o: "open_file st (csv_filename st) m = (r, st1)"
    by (cases "open_file st (csv_filename st) m")
  have t1: "trace st1 = trace st @ [OpenFile (csv_filename st) m]"
    using o by (auto simp: open_file_def Let_def split: if_splits)
  show ?thesis
  proof (cases r)
    case (Some e)
    then show ?thesis using False o t1 by (simp add: write_to_csv_def)
  next
    case None
    define st2 where "st2 = (if m = ModeW \<or> tell st1 (csv_filename st) = 0
        then append_row st1 (csv_filename st) (map CStr fieldnames) else st1)"
    have t2: "trace st2 = trace st1"
      by (simp add: st2_def append_row_def)
    have "snd (write_to_csv st projects m) = snd (write_rows st2 (csv_filename st) projects)"
      using False o None
      by (simp add: write_to_csv_def st2_def Let_def split: prod.splits option.splits)
    then show ?thesis
      using write_rows_trace[of st2 "csv_filename st" projects] t1 t2 by simp
  qed
qed

lemma pages_loop_trace:
  "\<exists>ys. trace (snd (snd (snd (snd
            (pages_loop ev sp ep bs pages (all_projects, current_batch, t, st))))))
          = trace st @ ys"
proof (induction pages arbitrary: all_projects current_batch t st)
  case Nil
  show ?case by simp
next
  case (Cons page_no rest)
  show ?case
  proof (cases "interrupt ev page_no")
    case True
    then show ?thesis by simp
  next
    case False
    obtain r st1 where sp: "scrape_single_page ev st page_no = (r, st1)"
      by (metis prod.exhaust)
    obtain ys1 where y1: "trace st1 = trace st @ ys1"
      using scrape_single_page_trace[of ev st page_no] sp by auto
    show ?thesis
    proof (cases r)
      case (Inl e)
      show ?thesis
      proof (cases "e \<noteq> KeyboardInterrupt \<and> is_Exception e")
        case True
        define s' where "s' = st1\<lparr>failed_count := failed_count st1 + 1\<rparr>"
        have eq: "pages_loop ev sp ep bs (page_no # rest) (all_projects, current_batch, t, st)
            = pages_loop ev sp ep bs rest (all_projects, current_batch, t, s')"
          using False sp Inl True by (simp add: s'_def)
        obtain zs where
          "trace (snd (snd (snd (snd
              (pages_loop ev sp ep bs rest (all_projects, current_batch, t, s'))))))
             = trace s' @ zs"
          using Cons.IH[of all_projects current_batch t s'] by auto
        then show ?thesis unfolding eq using y1 by (simp add: s'_def)
      next
        case stop: False
        then show ?thesis
          using False sp Inl y1 by auto
      qed
    next
      case (Inr pr)
      obtain page_projects prs where pr: "pr = (page_projects, prs)"
        by (cases pr)
      obtain a b s where step:
        "(if page_projects \<noteq> [] then
            (let all_projects = all_projects @ page_projects;
                 current_batch = current_batch @ page_projects
             in if int (length current_batch) \<ge> bs then
                  (let m = (if page_no = sp \<and> int (length all_projects) \<le> bs
                            then ModeW else ModeA)
                   in (all_projects, [], snd (write_to_csv st1 current_batch m)))
                else (all_projects, current_batch, st1))
          else (all_projects, current_batch, st1)) = (a, b, s)"
        by (metis prod_cases3)
      have "\<exists>ys. trace s = trace st1 @ ys"
        using step write_to_csv_trace[of st1] by (auto simp: Let_def split: if_splits)
      then obtain ys2 where y2: "trace s = trace st @ ys1 @ ys2"
        using y1 by auto
      define s' where "s' = (if page_no < ep then sleep 2 s else s)"
      have "\<exists>ys. trace s' = trace st @ ys"
        using y2 by (simp add: s'_def sleep_def)
      then obtain ys3 where y3: "trace s' = trace st @ ys3" by auto
      have eq: "pages_loop ev sp ep bs (page_no # rest) (all_projects, current_batch, t, st)
            = pages_loop ev sp ep bs rest (a, b, add_stats t prs, s')"
        using False sp Inr pr step by (simp add: Let_def s'_def)
      obtain zs where
        "trace (snd (snd (snd (snd
            (pages_loop ev sp ep bs rest (a, b, add_stats t prs, s'))))))
           = trace s' @ zs"
        using Cons.IH[of a b "add_stats t prs" s'] by auto
      then show ?thesis
        unfolding eq using y3 by simp
    qed
  qed
qed

text \<open>
  When the directory of the backup name does exist, a run from page 1 that finds a prior
  file renames it first: the rename precedes every later call, the opening of the
  tabular file included. This is the behaviour that the code aims at.
\<close>

lemma backup_rename_first:
  assumes "path_exists st (csv_filename st)"
    and "dir_exists st (dirname (backup_name ev st))"
  shows "\<exists>ys. trace (snd (scrape_multiple_pages ev st 1 end_page batch_size))
                = trace st @ Rename (csv_filename st) (backup_name ev st) # ys"
proof -
  obtain rows where f: "files st (csv_filename st) = Some rows"
    using assms(1) by (auto simp: path_exists_def)
  define st0 where "st0 = st\<lparr>trace := trace st @ [Rename (csv_filename st) (backup_name ev st)],
      files := ((files st)(csv_filename st := None))(backup_name ev st \<mapsto> rows)\<rparr>"
  have r: "os_rename st (csv_filename st) (backup_name ev st) = (None, st0)"
    using assms(2) f by (simp add: os_rename_def st0_def Let_def)
  obtain x a b t st1 where l:
    "pages_loop ev 1 end_page batch_size [1..end_page] ([], [], zero_stats, st0)
       = (x, a, b, t, st1)"
    by (metis prod_cases5)
  obtain ys1 where y1: "trace st1 = trace st0 @ ys1"
    using pages_loop_trace[of ev 1 end_page batch_size "[1..end_page]" "[]" "[]" zero_stats st0] l
    by auto
  show ?thesis
  proof (cases x)
    case (Some e)
    have "snd (scrape_multiple_pages ev st 1 end_page batch_size) = st1"
      using assms(1) r l Some by (simp add: scrape_multiple_pages_def del: pages_loop.simps)
    then show ?thesis using y1 by (simp add: st0_def)
  next
    case None
    have "\<exists>ys. trace (final_flush a b st1) = trace st1 @ ys"
      using write_to_csv_trace[of st1 b] by (simp add: final_flush_def)
    then obtain ys2 where y2: "trace (final_flush a b st1) = trace st1 @ ys2" by auto
    have y3: "trace (save_json a (final_flush a b st1))
                = trace (final_flush a b st1)
                  @ [OpenFile (json_filename (final_flush a b st1)) ModeW]"
      by (simp add: save_json_def Let_def)
    have "snd (scrape_multiple_pages ev st 1 end_page batch_size)
            = save_json a (final_flush a b st1)"
      using assms(1) r l None by (simp add: scrape_multiple_pages_def del: pages_loop.simps)
    then show ?thesis
      using y1 y2 y3 by (simp add: st0_def)
  qed
qed

text \<open>
  The part of C2 that the code does satisfy: whatever the run, at most the first
  opening of the tabular file is in write mode; every later one is in append mode.
\<close>

lemma getRera_opens:
  "csv_filename (snd (getRera ev st pdp_url)) = csv_filename st
   \<and> json_filename (snd (getRera ev st pdp_url)) = json_filename st
   \<and> csv_opens n (trace (snd (getRera ev st pdp_url))) = csv_opens n (trace st)"
  by (auto simp: getRera_def getRera_body_def session_get_def csv_opens_append
        split: prod.splits sum.splits if_splits)

lemma process_project_opens:
  "csv_filename (snd (snd (snd (process_project ev (ps, rs, st) rc)))) = csv_filename st
   \<and> json_filename (snd (snd (snd (process_project ev (ps, rs, st) rc)))) = json_filename st
   \<and> csv_opens n (trace (snd (snd (snd (process_project ev (ps, rs, st) rc)))))
       = csv_opens n (trace st)"
proof (cases rc)
  case NotObject
  then show ?thesis by simp
next
  case (Card project)
  obtain r st1 where g: "getRera ev st (dict_get project ''pdpUrl'') = (r, st1)"
    by (cases "getRera ev st (dict_get project ''pdpUrl'')")
  have "csv_filename st1 = csv_filename st \<and> json_filename st1 = json_filename st
        \<and> csv_opens n (trace st1) = csv_opens n (trace st)"
    using getRera_opens[of ev st "dict_get project ''pdpUrl''" n] g by simp
  then show ?thesis
    using Card g by (cases r) (simp_all add: Let_def sleep_def csv_opens_append)
qed

lemma process_cards_opens:
  "csv_filename (snd (snd (snd (process_cards ev (ps, rs, st) cards)))) = csv_filename st
   \<and> json_filename (snd (snd (snd (process_cards ev (ps, rs, st) cards))))
       = json_filename st
   \<and> csv_opens n (trace (snd (snd (snd (process_cards ev (ps, rs, st) cards)))))
       = csv_opens n (trace st)"
proof (induction cards arbitrary: ps rs st)
  case Nil
  show ?case by simp
next
  case (Cons c cards)
  obtain x ps1 rs1 st1 where s: "process_project ev (ps, rs, st) c = (x, ps1, rs1, st1)"
    by (metis prod_cases4)
  have k: "csv_filename st1 = csv_filename st \<and> json_filename st1 = json_filename st
        \<and> csv_opens n (trace st1) = csv_opens n (trace st)"
    using process_project_opens[of ev ps rs st c n] s by simp
  show ?case
  proof (cases x)
    case (Some e)
    then show ?thesis using s k by simp
  next
    case None
    then show ?thesis using Cons.IH[of ps1 rs1 st1] s k by simp
  qed
qed

lemma scrape_single_page_opens:
  "csv_filename (snd (scrape_single_page ev st page_no)) = csv_filename st
   \<and> json_filename (snd (scrape_single_page ev st page_no)) = json_filename st
   \<and> csv_opens n (trace (snd (scrape_single_page ev st page_no))) = csv_opens n (trace st)"
proof -
  have "csv_filename st2 = csv_filename st \<and> json_filename st2 = json_filename st
        \<and> csv_opens n (trace st2) = csv_opens n (trace st)"
    if "process_cards ev ([], zero_stats, st\<lparr>trace := trace st @ [HttpGet u]\<rparr>) cards
          = (x, projects, rs, st2)"
    for u cards x projects rs st2
    using process_cards_opens[of ev "[]" zero_stats
        "st\<lparr>trace := trace st @ [HttpGet u]\<rparr>" cards n] that
    by (simp add: csv_opens_append)
  then show ?thesis
    unfolding scrape_single_page_state
    by (auto simp: scrape_single_page_body_def session_get_def
          csv_opens_append split: prod.splits sum.splits listing.splits option.splits)
qed

lemma write_rows_csv_filename:
  "csv_filename (snd (write_rows st name projects)) = csv_filename st"
  by (induction projects arbitrary: st) (simp_all add: append_row_def split: sum.splits)

lemma write_to_csv_opens:
  "csv_filename (snd (write_to_csv st projects m)) = csv_filename st
   \<and> csv_opens (csv_filename st) (trace (snd (write_to_csv st projects m)))
       = csv_opens (csv_filename st) (trace st) @ (if projects = [] then [] else [m])"
proof (cases "projects = []")
  case True
  then show ?thesis by (simp add: write_to_csv_def)
next
  case False
  obtain r st1 where o: "open_file st (csv_filename st) m = (r, st1)"
    by (cases "open_file st (csv_filename st) m")
  have t1: "trace st1 = trace st @ [OpenFile (csv_filename st) m]"
    and c1: "csv_filename st1 = csv_filename st"
    using o by (auto simp: open_file_def Let_def split: if_splits)
  show ?thesis
  proof (cases r)
    case (Some e)
    then show ?thesis using False o t1 c1 by (simp add: write_to_csv_def csv_opens_append)
  next
    case None
    define st2 where "st2 = (if m = ModeW \<or> tell st1 (csv_filename st) = 0
        then append_row st1 (csv_filename st) (map CStr fieldnames) else st1)"
    have t2: "trace st2 = trace st1" and c2: "csv_filename st2 = csv_filename st1"
      by (simp_all add: st2_def append_row_def)
    have "snd (write_to_csv st projects m) = snd (write_rows st2 (csv_filename st) projects)"
      using False o None
      by (simp add: write_to_csv_def st2_def Let_def split: prod.splits option.splits)
    then show ?thesis
      using write_rows_trace[of st2 "csv_filename st" projects]
        write_rows_csv_filename[of st2 "csv_filename st" projects] t1 t2 c1 c2 False
      by (simp add: csv_opens_append)
  qed
qed

text \<open>One page: at most one flush; in write mode only on the start page.\<close>

lemma pages_loop_opens:
  "\<exists>ms. csv_filename (snd (snd (snd (snd
             (pages_loop ev sp ep bs pages (all_projects, current_batch, t, st))))))
           = csv_filename st
     \<and> json_filename (snd (snd (snd (snd
             (pages_loop ev sp ep bs pages (all_projects, current_batch, t, st))))))
           = json_filename st
     \<and> csv_opens (csv_filename st) (trace (snd (snd (snd (snd
             (pages_loop ev sp ep bs pages (all_projects, current_batch, t, st)))))))
           = csv_opens (csv_filename st) (trace st) @ ms
     \<and> (sp \<notin> set pages \<longrightarrow> list_all (\<lambda>m. m = ModeA) ms)
     \<and> (sp \<notin> set (tl pages) \<longrightarrow> list_all (\<lambda>m. m = ModeA) (tl ms))"
proof (induction pages arbitrary: all_projects current_batch t st)
  case Nil
  show ?case by (rule exI[of _ "[]"]) simp
next
  case (Cons page_no rest)
  let ?n = "csv_filename st"
  show ?case
  proof (cases "interrupt ev page_no")
    case True
    then show ?thesis by (intro exI[of _ "[]"]) simp
  next
    case False
    obtain r st1 where sp: "scrape_single_page ev st page_no = (r, st1)"
      by (metis prod.exhaust)
    have c1: "csv_filename st1 = ?n" and j1: "json_filename st1 = json_filename st"
      and o1: "csv_opens ?n (trace st1) = csv_opens ?n (trace st)"
      using scrape_single_page_opens[of ev st page_no ?n] sp by simp_all
    have "\<exists>a b t' s' ms1. csv_filename s' = ?n \<and> json_filename s' = json_filename st
            \<and> csv_opens ?n (trace s') = csv_opens ?n (trace st) @ ms1
            \<and> length ms1 \<le> 1 \<and> (page_no \<noteq> sp \<longrightarrow> list_all (\<lambda>m. m = ModeA) ms1)
            \<and> (pages_loop ev sp ep bs (page_no # rest) (all_projects, current_batch, t, st)
                  = pages_loop ev sp ep bs rest (a, b, t', s')
               \<or> (ms1 = [] \<and> (\<exists>x. pages_loop ev sp ep bs (page_no # rest)
                                   (all_projects, current_batch, t, st)
                                 = (x, all_projects, current_batch, t, s'))))"
    proof (cases r)
      case (Inl e)
      show ?thesis
      proof (cases "e \<noteq> KeyboardInterrupt \<and> is_Exception e")
        case True
        define s' where "s' = st1\<lparr>failed_count := failed_count st1 + 1\<rparr>"
        have "pages_loop ev sp ep bs (page_no # rest) (all_projects, current_batch, t, st)
            = pages_loop ev sp ep bs rest (all_projects, current_batch, t, s')"
          using False sp Inl True by (simp add: s'_def)
        moreover have "csv_filename s' = ?n \<and> json_filename s' = json_filename st
            \<and> csv_opens ?n (trace s') = csv_opens ?n (trace st) @ []"
          using c1 j1 o1 by (simp add: s'_def)
        ultimately show ?thesis
          by (intro exI[of _ all_projects] exI[of _ current_batch] exI[of _ t]
                exI[of _ s'] exI[of _ "[]"]) simp
      next
        case stop: False
        have "\<exists>x. pages_loop ev sp ep bs (page_no # rest) (all_projects, current_batch, t, st)
                 = (x, all_projects, current_batch, t, st1)"
          using False sp Inl stop by auto
        then show ?thesis
          using c1 j1 o1
          by (intro exI[of _ all_projects] exI[of _ current_batch] exI[of _ t]
                exI[of _ st1] exI[of _ "[]"]) simp
      qed
    next
      case (Inr pr)
      obtain page_projects prs where pr: "pr = (page_projects, prs)"
        by (cases pr)
      obtain a b s where step:
        "(if page_projects \<noteq> [] then
            (let all_projects = all_projects @ page_projects;
                 current_batch = current_batch @ page_projects
             in if int (length current_batch) \<ge> bs then
                  (let m = (if page_no = sp \<and> int (length all_projects) \<le> bs
                            then ModeW else ModeA)
                   in (all_projects, [], snd (write_to_csv st1 current_batch m)))
                else (all_projects, current_batch, st1))
          else (all_projects, current_batch, st1)) = (a, b, s)"
        by (metis prod_cases3)
      have "\<exists>ms1. csv_filename s = ?n \<and> json_filename s = json_filename st
              \<and> csv_opens ?n (trace s) = csv_opens ?n (trace st) @ ms1
              \<and> length ms1 \<le> 1 \<and> (page_no \<noteq> sp \<longrightarrow> list_all (\<lambda>m. m = ModeA) ms1)"
      proof (cases "page_projects \<noteq> [] \<and> int (length (current_batch @ page_projects)) \<ge> bs")
        case True
        define m where
          "m = (if page_no = sp \<and> int (length (all_projects @ page_projects)) \<le> bs
                then ModeW else ModeA)"
        have s: "s = snd (write_to_csv st1 (current_batch @ page_projects) m)"
          using step True by (auto simp: Let_def m_def)
        have "csv_filename s = ?n \<and> json_filename s = json_filename st
              \<and> csv_opens ?n (trace s) = csv_opens ?n (trace st) @ [m]"
          using write_to_csv_opens[of st1 "current_batch @ page_projects" m]
            write_to_csv_json_filename[of st1 "current_batch @ page_projects" m]
            True c1 j1 o1 s
          by simp
        moreover have "page_no \<noteq> sp \<longrightarrow> m = ModeA" by (simp add: m_def)
        ultimately show ?thesis by (intro exI[of _ "[m]"]) simp
      next
        case False
        then have "s = st1" using step by (auto simp: Let_def split: if_splits)
        then show ?thesis using c1 j1 o1 by (intro exI[of _ "[]"]) simp
      qed
      then obtain ms1 where cs: "csv_filename s = ?n"
        and js: "json_filename s = json_filename st"
        and os: "csv_opens ?n (trace s) = csv_opens ?n (trace st) @ ms1"
        and l1: "length ms1 \<le> 1"
        and a1: "page_no \<noteq> sp \<longrightarrow> list_all (\<lambda>m. m = ModeA) ms1"
        by auto
      define s' where "s' = (if page_no < ep then sleep 2 s else s)"
      have "csv_filename s' = ?n \<and> json_filename s' = json_filename st
        \<and> csv_opens ?n (trace s') = csv_opens ?n (trace st) @ ms1"
        using cs js os by (simp add: s'_def sleep_def csv_opens_append)
      moreover have
        "pages_loop ev sp ep bs (page_no # rest) (all_projects, current_batch, t, st)
            = pages_loop ev sp ep bs rest (a, b, add_stats t prs, s')"
        using False sp Inr pr step by (simp add: Let_def s'_def)
      ultimately show ?thesis
        using l1 a1
        by (intro exI[of _ a] exI[of _ b] exI[of _ "add_stats t prs"]
              exI[of _ s'] exI[of _ ms1]) simp
    qed
    then obtain a b t' s' ms1 where cs': "csv_filename s' = ?n"
      and js': "json_filename s' = json_filename st"
      and os': "csv_opens ?n (trace s') = csv_opens ?n (trace st) @ ms1"
      and l1: "length ms1 \<le> 1"
      and a1: "page_no \<noteq> sp \<longrightarrow> list_all (\<lambda>m. m = ModeA) ms1"
      and alt: "pages_loop ev sp ep bs (page_no # rest) (all_projects, current_batch, t, st)
                  = pages_loop ev sp ep bs rest (a, b, t', s')
               \<or> (ms1 = [] \<and> (\<exists>x. pages_loop ev sp ep bs (page_no # rest)
                                   (all_projects, current_batch, t, st)
                                 = (x, all_projects, current_batch, t, s')))"
      by blast
    from alt show ?thesis
    proof
      assume eq: "pages_loop ev sp ep bs (page_no # rest) (all_projects, current_batch, t, st)
                  = pages_loop ev sp ep bs rest (a, b, t', s')"
      obtain ms2 where
        c2: "csv_filename (snd (snd (snd (snd (pages_loop ev sp ep bs rest (a, b, t', s'))))))
               = ?n"
        and j2: "json_filename (snd (snd (snd (snd
                   (pages_loop ev sp ep bs rest (a, b, t', s'))))))
               = json_filename st"
        and o2: "csv_opens ?n (trace (snd (snd (snd (snd
                   (pages_loop ev sp ep bs rest (a, b, t', s')))))))
               = csv_opens ?n (trace st) @ ms1 @ ms2"
        and a2: "sp \<notin> set rest \<longrightarrow> list_all (\<lambda>m. m = ModeA) ms2"
        using Cons.IH[of a b t' s'] cs' js' os' by auto
      have tl_case: "list_all (\<lambda>m. m = ModeA) (tl (ms1 @ ms2))" if "sp \<notin> set rest"
      proof -
        have "list_all (\<lambda>m. m = ModeA) ms2" using a2 that by simp
        moreover have "set (tl ms2) \<subseteq> set ms2" by (cases ms2) auto
        ultimately show ?thesis using l1 by (cases ms1) (auto simp: list_all_iff)
      qed
      have all_case: "list_all (\<lambda>m. m = ModeA) (ms1 @ ms2)" if "sp \<notin> set (page_no # rest)"
        using that a1 a2 by simp
      show ?thesis
        unfolding eq
        by (rule exI[of _ "ms1 @ ms2"]) (use c2 j2 o2 tl_case all_case in simp)
    next
      assume "ms1 = [] \<and> (\<exists>x. pages_loop ev sp ep bs (page_no # rest)
                                   (all_projects, current_batch, t, st)
                                 = (x, all_projects, current_batch, t, s'))"
      then obtain x where m: "ms1 = []"
        and eq: "pages_loop ev sp ep bs (page_no # rest) (all_projects, current_batch, t, st)
                                 = (x, all_projects, current_batch, t, s')"
        by blast
      show ?thesis
        unfolding eq
        by (rule exI[of _ "[]"]) (use cs' js' os' m in simp)
    qed
  qed
qed

lemma save_json_opens:
  "json_filename s \<noteq> n \<Longrightarrow> csv_opens n (trace (save_json a s)) = csv_opens n (trace s)"
  by (simp add: save_json_def Let_def csv_opens_append)

lemma later_flushes_append:
  assumes "csv_opens (csv_filename st) (trace st) = []"
    and "json_filename st \<noteq> csv_filename st"
  shows "list_all (\<lambda>m. m = ModeA)
           (tl (csv_opens (csv_filename st)
                  (trace (snd (scrape_multiple_pages ev st start_page end_page batch_size)))))"
proof -
  let ?n = "csv_filename st"
  obtain r st0 where r: "(if start_page = 1 \<and> path_exists st ?n
            then os_rename st ?n (backup_name ev st) else (None, st)) = (r, st0)"
    by (metis prod.exhaust)
  have c0: "csv_filename st0 = ?n" and j0: "json_filename st0 = json_filename st"
    and o0: "csv_opens ?n (trace st0) = []"
    using r assms(1)
    by (auto simp: os_rename_def Let_def csv_opens_append split: if_splits option.splits)
  show ?thesis
  proof (cases r)
    case (Some e)
    then show ?thesis using r o0 by (simp add: scrape_multiple_pages_def)
  next
    case None
    obtain x a b t st1 where l:
      "pages_loop ev start_page end_page batch_size [start_page..end_page]
          ([], [], zero_stats, st0) = (x, a, b, t, st1)"
      by (metis prod_cases5)
    have nt: "start_page \<notin> set (tl [start_page..end_page])"
      by (cases "start_page \<le> end_page") (simp_all add: upto_rec1)
    obtain ms where c1: "csv_filename st1 = ?n" and j1: "json_filename st1 = json_filename st"
      and o1: "csv_opens ?n (trace st1) = ms"
      and d1: "list_all (\<lambda>m. m = ModeA) (tl ms)"
      using pages_loop_opens[of ev start_page end_page batch_size "[start_page..end_page]"
          "[]" "[]" zero_stats st0] l c0 j0 o0 nt
      by auto
    show ?thesis
    proof (cases x)
      case (Some e)
      have "snd (scrape_multiple_pages ev st start_page end_page batch_size) = st1"
        using r None l Some by (simp add: scrape_multiple_pages_def del: pages_loop.simps)
      then show ?thesis using o1 d1 by simp
    next
      case fin: None
      have ff: "final_flush a b st1
                  = (if b \<noteq> [] then snd (write_to_csv st1 b ModeA) else st1)"
        by (rule final_flush_appends[OF l])
      have o2: "csv_opens ?n (trace (final_flush a b st1))
                  = ms @ (if b \<noteq> [] then [ModeA] else [])"
        using write_to_csv_opens[of st1 b ModeA] c1 o1 by (simp add: ff)
      have j2: "json_filename (final_flush a b st1) \<noteq> ?n"
        using write_to_csv_json_filename[of st1 b ModeA] j1 assms(2) by (simp add: ff)
      have run: "snd (scrape_multiple_pages ev st start_page end_page batch_size)
                   = save_json a (final_flush a b st1)"
        using r None l fin by (simp add: scrape_multiple_pages_def del: pages_loop.simps)
      have "csv_opens ?n (trace (save_json a (final_flush a b st1)))
              = csv_opens ?n (trace (final_flush a b st1))"
        by (rule save_json_opens[OF j2])
      then have "csv_opens ?n (trace (save_json a (final_flush a b st1)))
              = ms @ (if b \<noteq> [] then [ModeA] else [])"
        using o2 by simp
      then show ?thesis
        using d1 unfolding run by (cases ms) (auto simp: list_all_iff)
    qed
  qed
qed

end
